theory Spec2Isabelle
  imports Complex_Main "HOL-Library.Sublist"
begin

section \<open>The product lookup: \<open>findProductByBarcode\<close> (services/api)\<close>

text \<open>
  The lookup is modelled from the point where \<open>fetch\<close> settles. The Turkish letters
  of the source's message texts are written with their nearest ASCII letters; distinct
  source texts stay distinct.

  A parsed JSON document. \<open>JNum\<close> carries the value of a parsed number (the lookup only
  tests it for zero and prints it). \<open>JObj\<close> lists the own properties of the parsed
  object in enumeration order, every key once (what \<open>JSON.parse\<close> produces). A
  JavaScript value that may be \<open>undefined\<close> is a \<open>json option\<close>, \<open>None\<close> being
  \<open>undefined\<close>.
\<close>

datatype json =
    JNull
  | JBool bool
  | JNum rat
  | JStr string
  | JArr "json list"
  | JObj "(string \<times> json) list"

type_synonym jsval = "json option"

text \<open>
  What a \<open>throw\<close> carries: an object that is \<open>instanceof Error\<close>, with its \<open>name\<close> and
  \<open>message\<close>, or any other value.
\<close>

datatype thrown = ErrorObject string string | OtherValue

text \<open>
  The texts the JavaScript engine chooses and no source file defines:
  \<open>numberToString\<close> is the decimal text of a number, \<open>typeErrorMessage k\<close> the message
  of the TypeError raised by reading property \<open>k\<close> of \<open>null\<close>, and
  \<open>primitiveErrorMessage\<close> the message of the TypeError raised when an object cannot be
  converted to a primitive value.
\<close>

record engine =
  numberToString :: "rat \<Rightarrow> string"
  typeErrorMessage :: "string \<Rightarrow> string"
  primitiveErrorMessage :: string

text \<open>JavaScript truthiness of a JSON value or \<open>undefined\<close>.\<close>

fun truthy :: "jsval \<Rightarrow> bool" where
  "truthy None = False"
| "truthy (Some JNull) = False"
| "truthy (Some (JBool b)) = b"
| "truthy (Some (JNum n)) = (n \<noteq> 0)"
| "truthy (Some (JStr s)) = (s \<noteq> [])"
| "truthy (Some (JArr xs)) = True"
| "truthy (Some (JObj kvs)) = True"

text \<open>\<open>a || b\<close>\<close>

definition js_or :: "jsval \<Rightarrow> jsval \<Rightarrow> jsval" where
  "js_or a b = (if truthy a then a else b)"

text \<open>
  Reading a property: a TypeError on \<open>null\<close>, the stored value on an object, and
  \<open>undefined\<close> on every other value (the source reads no \<open>length\<close> and no index, the
  only properties a JSON string or array has of its own).
\<close>

fun field :: "json \<Rightarrow> string \<Rightarrow> jsval" where
  "field (JObj kvs) k = map_of kvs k"
| "field _ k = None"

definition getProp :: "engine \<Rightarrow> json \<Rightarrow> string \<Rightarrow> thrown + jsval" where
  "getProp E v k =
     (case v of
        JNull \<Rightarrow> Inl (ErrorObject ''TypeError'' (typeErrorMessage E k))
      | _ \<Rightarrow> Inr (field v k))"

text \<open>
  The conversion to a string done by \<open>String(v)\<close> and by a template literal, on a
  parsed JSON value. An object is converted through its \<open>toString\<close> and \<open>valueOf\<close>
  methods: a parsed object inherits both, and the inherited \<open>toString\<close> answers
  \<open>[object Object]\<close>; but a property of its own named \<open>toString\<close> hides the inherited
  method and, being parsed JSON, is not callable, and \<open>valueOf\<close> (inherited, or hidden
  in the same way) yields no primitive value, so the conversion throws a TypeError. An
  array is converted by \<open>join\<close>: its entries' strings separated by commas, a \<open>null\<close>
  entry giving the empty string.
\<close>

fun ToString :: "engine \<Rightarrow> json \<Rightarrow> thrown + string"
  and joinEntries :: "engine \<Rightarrow> json list \<Rightarrow> thrown + string" where
  "ToString E JNull = Inr ''null''"
| "ToString E (JBool b) = Inr (if b then ''true'' else ''false'')"
| "ToString E (JNum n) = Inr (numberToString E n)"
| "ToString E (JStr s) = Inr s"
| "ToString E (JArr xs) = joinEntries E xs"
| "ToString E (JObj kvs) =
     (if ''toString'' \<in> set (map fst kvs)
      then Inl (ErrorObject ''TypeError'' (primitiveErrorMessage E))
      else Inr ''[object Object]'')"
| "joinEntries E [] = Inr []"
| "joinEntries E (x # xs) =
     (case (if x = JNull then Inr [] else ToString E x) of
        Inl e \<Rightarrow> Inl e
      | Inr s \<Rightarrow>
          if xs = [] then Inr s
          else (case joinEntries E xs of Inl e \<Rightarrow> Inl e | Inr t \<Rightarrow> Inr (s @ '','' @ t)))"

text \<open>\<open>Array.isArray\<close>, and \<open>xs.map(f)\<close> with an \<open>f\<close> that may throw.\<close>

fun isArray :: "jsval \<Rightarrow> bool" where
  "isArray (Some (JArr xs)) = True"
| "isArray _ = False"

fun elements :: "jsval \<Rightarrow> json list" where
  "elements (Some (JArr xs)) = xs"
| "elements _ = []"

fun mapThrow :: "('a \<Rightarrow> thrown + 'b) \<Rightarrow> 'a list \<Rightarrow> thrown + 'b list" where
  "mapThrow f [] = Inr []"
| "mapThrow f (x # xs) =
     (case f x of
        Inl e \<Rightarrow> Inl e
      | Inr y \<Rightarrow> (case mapThrow f xs of Inl e \<Rightarrow> Inl e | Inr ys \<Rightarrow> Inr (y # ys)))"

record store_stock =
  ss_store_id :: jsval
  ss_name :: jsval
  ss_stock :: string

record product =
  p_id :: jsval
  p_category_id :: jsval
  p_name :: jsval
  p_barcode :: jsval
  p_coverUrlThumb :: string
  p_totalStock :: jsval
  p_storeStocks :: "store_stock list"
  p_weight :: jsval
  p_features :: "json list"
  p_compatible_models :: jsval
  p_sales_total :: jsval
  p_price1 :: jsval
  p_price1_cur :: jsval
  p_price2 :: jsval
  p_price2_cur :: jsval
  p_price5 :: jsval
  p_price5_cur :: jsval
  p_price6 :: jsval
  p_price6_cur :: jsval
  p_price8 :: jsval
  p_price8_cur :: jsval

record api_response =
  success :: bool
  data :: "product option"
  variations :: "product list option"
  error :: "string option"

text \<open>The arrow function mapped over \<open>storeStocks\<close> and over \<open>shelf\<close>.\<close>

definition formatStock :: "engine \<Rightarrow> json \<Rightarrow> thrown + store_stock" where
  "formatStock E s =
     (case getProp E s ''store_id'' of
        Inl e \<Rightarrow> Inl e
      | Inr sid \<Rightarrow>
          (case (case js_or (field s ''stock'') (Some (JNum 0)) of
                   Some v \<Rightarrow> ToString E v
                 | None \<Rightarrow> ToString E (JNum 0)) of
             Inl e \<Rightarrow> Inl e
           | Inr stock \<Rightarrow>
               Inr \<lparr> ss_store_id = js_or sid (Some (JNum 0)),
                     ss_name = js_or (js_or (field s ''name'') (field s ''store_name''))
                                     (Some (JStr [])),
                     ss_stock = stock \<rparr>))"

definition formatFeatures :: "jsval \<Rightarrow> json list" where
  "formatFeatures f =
     (if truthy f then
        (case f of
           Some (JArr xs) \<Rightarrow> xs
         | Some (JObj kvs) \<Rightarrow> map snd kvs
         | _ \<Rightarrow> [])
      else [])"

text \<open>
  \<open>formatProduct\<close>: the stocks are built first, then the features, then the object
  literal, in which only the template literal of \<open>coverUrlThumb\<close> can throw.
\<close>

definition coverUrl :: "engine \<Rightarrow> jsval \<Rightarrow> thrown + string" where
  "coverUrl E c =
     (case c of
        None \<Rightarrow> Inr []
      | Some v \<Rightarrow>
          if truthy (Some v)
          then (case ToString E v of
                  Inl e \<Rightarrow> Inl e
                | Inr t \<Rightarrow> Inr (''https://nettechservis.com'' @ t))
          else Inr [])"

definition formatProduct :: "engine \<Rightarrow> json \<Rightarrow> thrown + product" where
  "formatProduct E product =
     (case getProp E product ''storeStocks'' of
        Inl e \<Rightarrow> Inl e
      | Inr stocks \<Rightarrow>
          (case (if truthy stocks \<and> isArray stocks then mapThrow (formatStock E) (elements stocks)
                 else if truthy (field product ''shelf'') \<and> isArray (field product ''shelf'')
                 then mapThrow (formatStock E) (elements (field product ''shelf''))
                 else Inr []) of
             Inl e \<Rightarrow> Inl e
           | Inr storeStocks \<Rightarrow>
               (case coverUrl E (field product ''coverUrlThumb'') of
                  Inl e \<Rightarrow> Inl e
                | Inr cover \<Rightarrow>
               Inr \<lparr> p_id = field product ''id'',
                     p_category_id = field product ''category_id'',
                     p_name = field product ''name'',
                     p_barcode = field product ''barcode'',
                     p_coverUrlThumb = cover,
                     p_totalStock = js_or (field product ''totalStock'') (Some (JNum 0)),
                     p_storeStocks = storeStocks,
                     p_weight = js_or (field product ''weight'') (Some (JStr ''0'')),
                     p_features = formatFeatures (field product ''features''),
                     p_compatible_models =
                       js_or (js_or (field product ''compatible_models'')
                                    (field product ''compatible_model_values''))
                             (Some (JArr [])),
                     p_sales_total = js_or (field product ''sales_total'') (Some (JNum 0)),
                     p_price1 = field product ''price1'',
                     p_price1_cur = field product ''price1_cur'',
                     p_price2 = field product ''price2'',
                     p_price2_cur = field product ''price2_cur'',
                     p_price5 = field product ''price5'',
                     p_price5_cur = field product ''price5_cur'',
                     p_price6 = field product ''price6'',
                     p_price6_cur = field product ''price6_cur'',
                     p_price8 = field product ''price8'',
                     p_price8_cur = field product ''price8_cur'' \<rparr>)))"

text \<open>
  How the request settled: \<open>fetch\<close> rejected (the 30000 ms timer's
  \<open>controller.abort()\<close> makes it reject with an Error named AbortError), reading the
  body rejected, or a response arrived with its \<open>ok\<close> flag, its status and the result
  of \<open>JSON.parse\<close> on its text (\<open>None\<close> when the text is not JSON).
\<close>

datatype fetch_outcome =
    FetchRejected thrown
  | TextRejected thrown
  | Body bool nat "json option"

definition Aborted :: fetch_outcome where
  "Aborted = FetchRejected (ErrorObject ''AbortError'' ''Aborted'')"

text \<open>The decimal digits of a status code, as the template literal prints it.\<close>

fun decimal :: "nat \<Rightarrow> string" where
  "decimal n =
     (if n < 10 then [char_of (48 + n)]
      else decimal (n div 10) @ [char_of (48 + n mod 10)])"

text \<open>The choice of \<open>productsArray\<close>: the new format, the old one, or the throw.\<close>

definition selectProducts :: "engine \<Rightarrow> json \<Rightarrow> thrown + json list" where
  "selectProducts E apiResponse =
     (case getProp E apiResponse ''variations'' of
        Inl e \<Rightarrow> Inl e
      | Inr v \<Rightarrow>
          if truthy v \<and> isArray v \<and> 0 < length (elements v) then Inr (elements v)
          else (case field apiResponse ''product'' of
                  Some p \<Rightarrow>
                    if truthy (field apiResponse ''success'') \<and> truthy (Some p) then Inr [p]
                    else Inl (ErrorObject ''Error'' ''API yanitinda product bilgisi bulunamadi'')
                | None \<Rightarrow> Inl (ErrorObject ''Error'' ''API yanitinda product bilgisi bulunamadi'')))"

text \<open>The body of the \<open>try\<close> block: a thrown value, or the returned response.\<close>

definition lookupTry :: "engine \<Rightarrow> fetch_outcome \<Rightarrow> thrown + api_response" where
  "lookupTry E r =
     (case r of
        FetchRejected e \<Rightarrow> Inl e
      | TextRejected e \<Rightarrow> Inl e
      | Body ok status parsed \<Rightarrow>
          if \<not> ok then Inl (ErrorObject ''Error'' (''HTTP error! status: '' @ decimal status))
          else
            (case parsed of
               None \<Rightarrow> Inl (ErrorObject ''Error'' ''API yaniti JSON formatinda degil'')
             | Some apiResponse \<Rightarrow>
                 (case selectProducts E apiResponse of
                    Inl e \<Rightarrow> Inl e
                  | Inr productsArray \<Rightarrow>
                      (case mapThrow (formatProduct E) productsArray of
                         Inl e \<Rightarrow> Inl e
                       | Inr formattedProducts \<Rightarrow>
                           Inr \<lparr> success = True,
                                 data = (case formattedProducts of [] \<Rightarrow> None | p # _ \<Rightarrow> Some p),
                                 variations = Some formattedProducts,
                                 error = None \<rparr>))))"

text \<open>The \<open>catch\<close> block.\<close>

definition lookupCatch :: "thrown \<Rightarrow> api_response" where
  "lookupCatch e =
     (case e of
        ErrorObject name message \<Rightarrow>
          if name = ''AbortError''
          then \<lparr> success = False, data = None, variations = None,
                 error = Some ''Istek zaman asimina ugradi (10 saniye)'' \<rparr>
          else \<lparr> success = False, data = None, variations = None, error = Some message \<rparr>
      | OtherValue \<Rightarrow>
          \<lparr> success = False, data = None, variations = None, error = Some ''Urun bulunamadi'' \<rparr>)"

definition findProductByBarcode :: "engine \<Rightarrow> fetch_outcome \<Rightarrow> api_response" where
  "findProductByBarcode E r =
     (case lookupTry E r of Inl e \<Rightarrow> lookupCatch e | Inr response \<Rightarrow> response)"

section \<open>The frame filter: \<open>codeScanner.onCodeScanned\<close>\<close>

text \<open>
  The numbers of the filter are JavaScript numbers, and their arithmetic is the
  engine's: it is a parameter, over any type \<open>'n\<close> of numbers. \<open>num_lit\<close> is the number
  a decimal literal denotes; \<open>num_ge a b\<close> is \<open>a >= b\<close> and \<open>num_le a b\<close> is
  \<open>a <= b\<close>; \<open>num_max\<close> and \<open>num_min\<close> are \<open>Math.max\<close> and \<open>Math.min\<close>.
\<close>

record 'n arith =
  num_lit :: "rat \<Rightarrow> 'n"
  num_add :: "'n \<Rightarrow> 'n \<Rightarrow> 'n"
  num_sub :: "'n \<Rightarrow> 'n \<Rightarrow> 'n"
  num_mul :: "'n \<Rightarrow> 'n \<Rightarrow> 'n"
  num_div :: "'n \<Rightarrow> 'n \<Rightarrow> 'n"
  num_le :: "'n \<Rightarrow> 'n \<Rightarrow> bool"
  num_ge :: "'n \<Rightarrow> 'n \<Rightarrow> bool"
  num_max :: "'n \<Rightarrow> 'n \<Rightarrow> 'n"
  num_min :: "'n \<Rightarrow> 'n \<Rightarrow> 'n"

text \<open>
  What is fixed when the module is loaded: \<open>Dimensions.get('window')\<close> and the number
  arithmetic. The module constants are functions of it.
\<close>

record 'n window =
  SCREEN_WIDTH :: 'n
  SCREEN_HEIGHT :: 'n
  numbers :: "'n arith"

definition FRAME_SIZE :: "'n window \<Rightarrow> 'n" where
  "FRAME_SIZE d = num_mul (numbers d) (SCREEN_WIDTH d) (num_lit (numbers d) (7 / 10))"

definition SCAN_FRAME_LEFT :: "'n window \<Rightarrow> 'n" where
  "SCAN_FRAME_LEFT d =
     num_div (numbers d) (num_sub (numbers d) (SCREEN_WIDTH d) (FRAME_SIZE d))
       (num_lit (numbers d) 2)"

definition SCAN_FRAME_RIGHT :: "'n window \<Rightarrow> 'n" where
  "SCAN_FRAME_RIGHT d = num_add (numbers d) (SCAN_FRAME_LEFT d) (FRAME_SIZE d)"

definition SCAN_FRAME_TOP :: "'n window \<Rightarrow> 'n" where
  "SCAN_FRAME_TOP d =
     num_div (numbers d) (num_sub (numbers d) (SCREEN_HEIGHT d) (FRAME_SIZE d))
       (num_lit (numbers d) 2)"

definition SCAN_FRAME_BOTTOM :: "'n window \<Rightarrow> 'n" where
  "SCAN_FRAME_BOTTOM d = num_add (numbers d) (SCAN_FRAME_TOP d) (FRAME_SIZE d)"

record 'n frame =
  frame_x :: 'n
  frame_y :: 'n
  frame_width :: 'n
  frame_height :: 'n

text \<open>A detected code: \<open>value\<close> and \<open>frame\<close> are both optional in the scanner's type.\<close>

record 'n scan_code =
  code_value :: "string option"
  code_frame :: "'n frame option"

text \<open>The containment test both variants end with, on \<open>(centerX, centerY)\<close>.\<close>

definition inScanFrame :: "'n window \<Rightarrow> 'n \<times> 'n \<Rightarrow> bool" where
  "inScanFrame d c =
     (num_ge (numbers d) (fst c) (SCAN_FRAME_LEFT d) \<and>
      num_le (numbers d) (fst c) (SCAN_FRAME_RIGHT d) \<and>
      num_ge (numbers d) (snd c) (SCAN_FRAME_TOP d) \<and>
      num_le (numbers d) (snd c) (SCAN_FRAME_BOTTOM d))"

text \<open>\<open>!code.value\<close>: the value is missing or the empty string.\<close>

definition noValue :: "'n scan_code \<Rightarrow> bool" where
  "noValue c = (case code_value c of None \<Rightarrow> True | Some v \<Rightarrow> v = [])"

text \<open>
  The center of the bounding box in the frame's own coordinates, as the code computes
  it: \<open>(x + width / 2, y + height / 2)\<close>.
\<close>

definition center :: "'n window \<Rightarrow> 'n frame \<Rightarrow> 'n \<times> 'n" where
  "center d f =
     (num_add (numbers d) (frame_x f) (num_div (numbers d) (frame_width f) (num_lit (numbers d) 2)),
      num_add (numbers d) (frame_y f) (num_div (numbers d) (frame_height f) (num_lit (numbers d) 2)))"

text \<open>Variant A (CameraScreen.tsx): the predicate of \<open>codes.find\<close>.\<close>

definition validCode :: "'n window \<Rightarrow> 'n scan_code \<Rightarrow> bool" where
  "validCode d c =
     (if noValue c then False
      else (case code_frame c of
              None \<Rightarrow> False
            | Some f \<Rightarrow> inScanFrame d (center d f)))"

text \<open>
  Variant B: on iOS with a camera format the center is first mapped from the sensor's
  landscape space to the screen,
  \<open>((y + height / 2) / camShort * SCREEN_WIDTH, (x + width / 2) / camLong * SCREEN_HEIGHT)\<close>.
\<close>

datatype platform = Ios | OtherOS

record 'n camera_format =
  videoWidth :: 'n
  videoHeight :: 'n

definition screenCenter ::
  "platform \<Rightarrow> 'n camera_format option \<Rightarrow> 'n window \<Rightarrow> 'n frame \<Rightarrow> 'n \<times> 'n" where
  "screenCenter os format d f =
     (case format of
        None \<Rightarrow> center d f
      | Some fmt \<Rightarrow>
          if os = Ios then
            (let camLong = num_max (numbers d) (videoWidth fmt) (videoHeight fmt);
                 camShort = num_min (numbers d) (videoWidth fmt) (videoHeight fmt)
             in (num_mul (numbers d)
                   (num_div (numbers d)
                      (num_add (numbers d) (frame_y f)
                         (num_div (numbers d) (frame_height f) (num_lit (numbers d) 2)))
                      camShort)
                   (SCREEN_WIDTH d),
                 num_mul (numbers d)
                   (num_div (numbers d)
                      (num_add (numbers d) (frame_x f)
                         (num_div (numbers d) (frame_width f) (num_lit (numbers d) 2)))
                      camLong)
                   (SCREEN_HEIGHT d)))
          else center d f)"

definition validCode_B ::
  "platform \<Rightarrow> 'n camera_format option \<Rightarrow> 'n window \<Rightarrow> 'n scan_code \<Rightarrow> bool" where
  "validCode_B os format d c =
     (if noValue c then False
      else (case code_frame c of
              None \<Rightarrow> False
            | Some f \<Rightarrow> inScanFrame d (screenCenter os format d f)))"

text \<open>
  \<open>codes.find(...)\<close> followed by \<open>if (validCode?.value)\<close>: the value handed to
  \<open>handleBarcodeScanned\<close>, if any.
\<close>

definition acceptedValue :: "'n scan_code option \<Rightarrow> string option" where
  "acceptedValue found =
     (case found of
        None \<Rightarrow> None
      | Some c \<Rightarrow> if noValue c then None else code_value c)"

definition frameFilter :: "'n window \<Rightarrow> 'n scan_code list \<Rightarrow> string option" where
  "frameFilter d codes = acceptedValue (find (validCode d) codes)"

definition frameFilter_B ::
  "platform \<Rightarrow> 'n camera_format option \<Rightarrow> 'n window \<Rightarrow> 'n scan_code list \<Rightarrow> string option" where
  "frameFilter_B os format d codes = acceptedValue (find (validCode_B os format d) codes)"

section \<open>The camera screen\<close>

text \<open>
  One screen instance. \<open>isProcessing\<close> is the React state, \<open>lastScanTime\<close> the ref;
  \<open>inFlight\<close> holds the barcodes whose \<open>findProductByBarcode\<close> promise has not settled,
  \<open>alerts\<close> the alerts on display, \<open>navigated\<close> the calls of
  \<open>navigation.navigate('ProductDetail', {barcode})\<close>. A state update is taken to be
  visible to the next callback.
\<close>

record alert =
  title :: string
  message :: string

record screen =
  isProcessing :: bool
  lastScanTime :: int
  inFlight :: "string list"
  alerts :: "alert list"
  navigated :: "string list"

text \<open>
  Variant A adds the confirmation state. \<open>confirmTimeout\<close> is the pending timer, as
  the time at which it is due.
\<close>

record screenA = screen +
  isConfirming :: bool
  confirmProgress :: rat
  barcodeBuffer :: "string list"
  confirmTimeout :: "int option"

definition SCAN_COOLDOWN :: int where "SCAN_COOLDOWN = 500"
definition CONFIRM_COUNT :: nat where "CONFIRM_COUNT = 3"
definition CONFIRM_TIMEOUT :: int where "CONFIRM_TIMEOUT = 2500"
definition SCAN_DEBOUNCE :: int where "SCAN_DEBOUNCE = 1500"

definition notFoundAlert :: "string \<Rightarrow> alert" where
  "notFoundAlert barcode =
     \<lparr> title = ''Urun Bulunamadi'',
       message = [CHR 0x22] @ barcode @ [CHR 0x22] @
         '' barkodlu urun bulunamadi. Tekrar denemek icin farkli bir barkod okutun.'' \<rparr>"

definition errorAlert :: alert where
  "errorAlert =
     \<lparr> title = ''Hata'',
       message = ''Urun bilgisi alinirken bir hata olustu. Lutfen tekrar deneyin.'' \<rparr>"

definition clearBarcodeBuffer :: "screenA \<Rightarrow> screenA" where
  "clearBarcodeBuffer s =
     s\<lparr> barcodeBuffer := [], isConfirming := False, confirmProgress := 0,
        confirmTimeout := None \<rparr>"

text \<open>
  \<open>processBarcodeRequest\<close> up to its \<open>await\<close>: the flag is set, variant A clears the
  buffer, and the lookup is started.
\<close>

definition processBarcodeRequest :: "string \<Rightarrow> screenA \<Rightarrow> screenA" where
  "processBarcodeRequest barcode s =
     (let s1 = clearBarcodeBuffer (s\<lparr> isProcessing := True \<rparr>)
      in s1\<lparr> inFlight := inFlight s1 @ [barcode] \<rparr>)"

definition processBarcodeRequest_B :: "string \<Rightarrow> screen \<Rightarrow> screen" where
  "processBarcodeRequest_B barcode s =
     s\<lparr> isProcessing := True, inFlight := inFlight s @ [barcode] \<rparr>"

text \<open>
  \<open>processBarcodeRequest\<close> after the \<open>await\<close>, the same in both variants: the lookup of
  \<open>barcode\<close> settles with a response (\<open>Some\<close>) or by throwing (\<open>None\<close>). The event
  does nothing when no lookup of \<open>barcode\<close> is pending.
\<close>

definition lookupSettled ::
  "string \<Rightarrow> api_response option \<Rightarrow> 'a screen_scheme \<Rightarrow> 'a screen_scheme" where
  "lookupSettled barcode r s =
     (if barcode \<in> set (inFlight s) then
        (let s1 = s\<lparr> inFlight := remove1 barcode (inFlight s) \<rparr>
         in case r of
              Some response \<Rightarrow>
                if success response \<and> data response \<noteq> None
                then s1\<lparr> navigated := navigated s1 @ [barcode] \<rparr>
                else s1\<lparr> alerts := alerts s1 @ [notFoundAlert barcode] \<rparr>
            | None \<Rightarrow> s1\<lparr> alerts := alerts s1 @ [errorAlert] \<rparr>)
      else s)"

text \<open>The alert's only button, Tamam: the alert closes and the flag is cleared.\<close>

definition alertOk :: "'a screen_scheme \<Rightarrow> 'a screen_scheme" where
  "alertOk s =
     (case alerts s of
        [] \<Rightarrow> s
      | a # rest \<Rightarrow> s\<lparr> alerts := rest, isProcessing := False \<rparr>)"

text \<open>\<open>xs.slice(-n)\<close>: the last \<open>n\<close> entries, all of them when there are fewer.\<close>

definition slice_last :: "nat \<Rightarrow> 'a list \<Rightarrow> 'a list" where
  "slice_last n xs = drop (length xs - n) xs"

text \<open>Variant A: \<open>handleBarcodeScanned\<close>, called at time \<open>now\<close> (\<open>Date.now()\<close>).\<close>

definition handleBarcodeScanned :: "int \<Rightarrow> string \<Rightarrow> screenA \<Rightarrow> screenA" where
  "handleBarcodeScanned now barcode s =
     (if isProcessing s then s
      else if now - lastScanTime s < SCAN_COOLDOWN then s
      else
        (let s1 = s\<lparr> lastScanTime := now, barcodeBuffer := barcodeBuffer s @ [barcode] \<rparr>;
             recentBarcodes = slice_last CONFIRM_COUNT (barcodeBuffer s1);
             allSame = list_all (\<lambda>b. b = barcode) recentBarcodes;
             hasEnoughScans = (CONFIRM_COUNT \<le> length recentBarcodes)
         in if allSame \<and> hasEnoughScans then processBarcodeRequest barcode s1
            else s1\<lparr> isConfirming := True,
                     confirmProgress := of_nat (length recentBarcodes) / of_nat CONFIRM_COUNT,
                     confirmTimeout := Some (now + CONFIRM_TIMEOUT) \<rparr>))"

text \<open>Variant B: \<open>handleBarcodeScanned\<close>.\<close>

definition handleBarcodeScanned_B :: "int \<Rightarrow> string \<Rightarrow> screen \<Rightarrow> screen" where
  "handleBarcodeScanned_B now barcode s =
     (if isProcessing s then s
      else if now - lastScanTime s < SCAN_DEBOUNCE then s
      else processBarcodeRequest_B barcode (s\<lparr> lastScanTime := now \<rparr>))"

text \<open>
  The confirmation timer: a timer that is due when a callback arrives at time \<open>now\<close>
  has run \<open>clearBarcodeBuffer\<close> before it.
\<close>

definition tick :: "int \<Rightarrow> screenA \<Rightarrow> screenA" where
  "tick now s =
     (case confirmTimeout s of
        None \<Rightarrow> s
      | Some due \<Rightarrow> if due \<le> now then clearBarcodeBuffer s else s)"

text \<open>One read delivered to the accumulator at time \<open>now\<close>.\<close>

definition scanRead :: "int \<times> string \<Rightarrow> screenA \<Rightarrow> screenA" where
  "scanRead r s = handleBarcodeScanned (fst r) (snd r) (tick (fst r) s)"

text \<open>The effect of \<open>useFocusEffect\<close> (focus) and its cleanup (blur), per variant.\<close>

definition onFocus :: "screenA \<Rightarrow> screenA" where
  "onFocus s = clearBarcodeBuffer (s\<lparr> isProcessing := False \<rparr>)"

definition onBlur :: "screenA \<Rightarrow> screenA" where
  "onBlur s = clearBarcodeBuffer s"

definition onFocus_B :: "screen \<Rightarrow> screen" where
  "onFocus_B s = s\<lparr> isProcessing := False, lastScanTime := 0 \<rparr>"

definition onBlur_B :: "screen \<Rightarrow> screen" where
  "onBlur_B s = s\<lparr> lastScanTime := 0 \<rparr>"

text \<open>The accumulator at rest: nothing buffered, no progress shown, no timer.\<close>

definition idle :: "screenA \<Rightarrow> bool" where
  "idle s =
     (barcodeBuffer s = [] \<and> isConfirming s = False \<and> confirmProgress s = 0 \<and>
      confirmTimeout s = None)"

text \<open>The screen as mounted.\<close>

definition initScreen :: screen where
  "initScreen =
     \<lparr> isProcessing = False, lastScanTime = 0, inFlight = [], alerts = [], navigated = [] \<rparr>"

definition initScreenA :: screenA where
  "initScreenA =
     \<lparr> isProcessing = False, lastScanTime = 0, inFlight = [], alerts = [], navigated = [],
       isConfirming = False, confirmProgress = 0, barcodeBuffer = [], confirmTimeout = None \<rparr>"

text \<open>A run of reads delivered to the accumulator, each with its time.\<close>

fun scanReads :: "(int \<times> string) list \<Rightarrow> screenA \<Rightarrow> screenA" where
  "scanReads [] s = s"
| "scanReads (r # rs) s = scanReads rs (scanRead r s)"

text \<open>
  The callbacks of one screen instance, each delivered with the time at which it runs:
  a camera frame with its detected codes, the settling of the lookup of a barcode, the
  alert's button, focus and blur.
\<close>

datatype 'n event =
    CodesScanned "'n scan_code list"
  | LookupSettled string "api_response option"
  | AlertOk
  | Focus
  | Blur

definition step :: "'n window \<Rightarrow> int \<times> 'n event \<Rightarrow> screenA \<Rightarrow> screenA" where
  "step d te s =
     (let s0 = tick (fst te) s
      in case snd te of
           CodesScanned codes \<Rightarrow>
             (case frameFilter d codes of
                None \<Rightarrow> s0
              | Some v \<Rightarrow> handleBarcodeScanned (fst te) v s0)
         | LookupSettled barcode r \<Rightarrow> lookupSettled barcode r s0
         | AlertOk \<Rightarrow> alertOk s0
         | Focus \<Rightarrow> onFocus s0
         | Blur \<Rightarrow> onBlur s0)"

fun run :: "'n window \<Rightarrow> (int \<times> 'n event) list \<Rightarrow> screenA \<Rightarrow> screenA" where
  "run d [] s = s"
| "run d (te # es) s = run d es (step d te s)"

definition step_B ::
  "platform \<Rightarrow> 'n camera_format option \<Rightarrow> 'n window \<Rightarrow> int \<times> 'n event \<Rightarrow> screen \<Rightarrow> screen"
  where
  "step_B os format d te s =
     (case snd te of
        CodesScanned codes \<Rightarrow>
          (case frameFilter_B os format d codes of
             None \<Rightarrow> s
           | Some v \<Rightarrow> handleBarcodeScanned_B (fst te) v s)
      | LookupSettled barcode r \<Rightarrow> lookupSettled barcode r s
      | AlertOk \<Rightarrow> alertOk s
      | Focus \<Rightarrow> onFocus_B s
      | Blur \<Rightarrow> onBlur_B s)"

fun run_B ::
  "platform \<Rightarrow> 'n camera_format option \<Rightarrow> 'n window \<Rightarrow> (int \<times> 'n event) list \<Rightarrow> screen
     \<Rightarrow> screen" where
  "run_B os format d [] s = s"
| "run_B os format d (te # es) s = run_B os format d es (step_B os format d te s)"

section \<open>Notions the properties are stated with\<close>

text \<open>
  The values of the reads that pass the cooldown, \<open>prev\<close> being the time of the last
  read that passed it.
\<close>

fun cooledValues :: "int \<Rightarrow> (int \<times> string) list \<Rightarrow> string list" where
  "cooledValues prev [] = []"
| "cooledValues prev (r # rs) =
     (if fst r - prev < SCAN_COOLDOWN then cooledValues prev rs
      else snd r # cooledValues (fst r) rs)"

text \<open>No \<open>n\<close> consecutive entries of the list are all the same.\<close>

fun noRun :: "nat \<Rightarrow> 'a list \<Rightarrow> bool" where
  "noRun n [] = True"
| "noRun n (x # xs) =
     (\<not> (n \<le> length (x # xs) \<and> list_all (\<lambda>b. b = x) (take n (x # xs))) \<and> noRun n xs)"

text \<open>Neighbouring times of the list are at least \<open>gap\<close> apart, in order.\<close>

fun spaced :: "int \<Rightarrow> int list \<Rightarrow> bool" where
  "spaced gap (t # u # ts) = (gap \<le> u - t \<and> spaced gap (u # ts))"
| "spaced gap _ = True"

text \<open>The times of the events of a run of variant B that started a lookup.\<close>

fun dispatchTimes_B ::
  "platform \<Rightarrow> 'n camera_format option \<Rightarrow> 'n window \<Rightarrow> (int \<times> 'n event) list \<Rightarrow> screen
     \<Rightarrow> int list" where
  "dispatchTimes_B os format d [] s = []"
| "dispatchTimes_B os format d (te # es) s =
     (if length (inFlight s) < length (inFlight (step_B os format d te s)) then [fst te] else [])
     @ dispatchTimes_B os format d es (step_B os format d te s)"

definition isRefocus :: "int \<times> 'n event \<Rightarrow> bool" where
  "isRefocus te = (snd te = Focus \<or> snd te = Blur)"

text \<open>
  Every focus event of the run arrives when no lookup is pending and no alert is open.
\<close>

fun focusSafe :: "'n window \<Rightarrow> (int \<times> 'n event) list \<Rightarrow> screenA \<Rightarrow> bool" where
  "focusSafe d [] s = True"
| "focusSafe d (te # es) s =
     ((if snd te = Focus then inFlight s = [] \<and> alerts s = [] else True) \<and>
      focusSafe d es (step d te s))"

fun focusSafe_B ::
  "platform \<Rightarrow> 'n camera_format option \<Rightarrow> 'n window \<Rightarrow> (int \<times> 'n event) list \<Rightarrow> screen
     \<Rightarrow> bool" where
  "focusSafe_B os format d [] s = True"
| "focusSafe_B os format d (te # es) s =
     ((if snd te = Focus then inFlight s = [] \<and> alerts s = [] else True) \<and>
      focusSafe_B os format d es (step_B os format d te s))"

text \<open>
  The gate: while a lookup is pending or an alert is open, the flag is set and that
  lookup or alert is the only one.
\<close>

definition gated :: "'a screen_scheme \<Rightarrow> bool" where
  "gated s =
     (if inFlight s = [] \<and> alerts s = [] then True
      else isProcessing s \<and> length (inFlight s) + length (alerts s) = 1)"




text \<open>
  The confirmation test of \<open>handleBarcodeScanned\<close> on a buffer to which the read is
  appended: the last \<open>CONFIRM_COUNT\<close> entries are all the read, and there are that many.
\<close>

definition confirms :: "string \<Rightarrow> string list \<Rightarrow> bool" where
  "confirms barcode buf =
     (list_all (\<lambda>b. b = barcode) (slice_last CONFIRM_COUNT (buf @ [barcode])) \<and>
      CONFIRM_COUNT \<le> length (slice_last CONFIRM_COUNT (buf @ [barcode])))"

section \<open>A concrete arithmetic and sample values\<close>

text \<open>
  The arithmetic of IEEE 754 binary64 numbers, for the examples: a finite number by its
  value, the two infinities and NaN; every result is rounded to the nearest number with a
  53-bit significand, ties to the even one, with gradual underflow below \<open>2^-1022\<close> and
  overflow to an infinity when the rounded value reaches \<open>2^1024\<close>. The sign of a zero
  is not kept: it shows only in the sign of a quotient by zero, which is taken as a
  quotient by \<open>+0\<close>.
\<close>

datatype double = Fin rat | PInf | NInf | NaN

text \<open>The number of binary digits of a positive whole number.\<close>

function bits :: "int \<Rightarrow> int" where
  "bits n = (if n \<le> 0 then 0 else 1 + bits (n div 2))"
  by pat_completeness auto
termination
  by (relation "measure nat") auto

declare bits.simps [simp del]

definition pow2 :: "int \<Rightarrow> rat" where
  "pow2 e = (if 0 \<le> e then 2 ^ nat e else 1 / 2 ^ nat (- e))"

definition roundHalfEven :: "rat \<Rightarrow> int" where
  "roundHalfEven m =
     (let n = \<lfloor>m\<rfloor>; f = m - of_int n
      in if f < 1 / 2 then n else if 1 / 2 < f then n + 1 else if even n then n else n + 1)"

text \<open>
  The exponent of the last significand bit of a positive value \<open>a\<close>: with
  \<open>2^t \<le> a < 2^(t+1)\<close> (or \<open>2^t < a \<le> 2^(t+1)\<close> below one) it is \<open>t - 52\<close>, and not
  less than \<open>-1074\<close>.
\<close>

definition quantum :: "rat \<Rightarrow> int" where
  "quantum a =
     (let t = (if 1 \<le> a then bits \<lfloor>a\<rfloor> - 1 else - bits \<lfloor>1 / a\<rfloor>)
      in max (t - 52) (- 1074))"

text \<open>\<open>n * 2^e\<close> is \<open>2^1024\<close> or more.\<close>

definition overflows :: "int \<Rightarrow> int \<Rightarrow> bool" where
  "overflows n e = (if e < 971 then False else 2 ^ 53 \<le> rat_of_int n * pow2 (e - 971))"

definition fl :: "rat \<Rightarrow> double" where
  "fl x =
     (if x = 0 then Fin 0
      else
        (let a = \<bar>x\<bar>; e = quantum a; n = roundHalfEven (a / pow2 e)
         in if overflows n e then (if 0 < x then PInf else NInf)
            else Fin (if 0 < x then of_int n * pow2 e else - (of_int n * pow2 e))))"

fun d_neg :: "double \<Rightarrow> double" where
  "d_neg (Fin a) = Fin (- a)"
| "d_neg PInf = NInf"
| "d_neg NInf = PInf"
| "d_neg NaN = NaN"

fun d_add :: "double \<Rightarrow> double \<Rightarrow> double" where
  "d_add (Fin a) (Fin b) = fl (a + b)"
| "d_add NaN _ = NaN"
| "d_add _ NaN = NaN"
| "d_add PInf NInf = NaN"
| "d_add NInf PInf = NaN"
| "d_add PInf _ = PInf"
| "d_add NInf _ = NInf"
| "d_add (Fin a) PInf = PInf"
| "d_add (Fin a) NInf = NInf"

definition d_sub :: "double \<Rightarrow> double \<Rightarrow> double" where
  "d_sub a b = d_add a (d_neg b)"

text \<open>The sign of a number as \<open>1\<close>, \<open>-1\<close> or \<open>0\<close> (zero and NaN).\<close>

fun d_sign :: "double \<Rightarrow> int" where
  "d_sign (Fin a) = (if 0 < a then 1 else if a < 0 then - 1 else 0)"
| "d_sign PInf = 1"
| "d_sign NInf = - 1"
| "d_sign NaN = 0"

definition infinityOf :: "int \<Rightarrow> double" where
  "infinityOf s = (if 0 < s then PInf else if s < 0 then NInf else NaN)"

fun d_mul :: "double \<Rightarrow> double \<Rightarrow> double" where
  "d_mul (Fin a) (Fin b) = fl (a * b)"
| "d_mul NaN _ = NaN"
| "d_mul _ NaN = NaN"
| "d_mul a b = infinityOf (d_sign a * d_sign b)"

fun d_div :: "double \<Rightarrow> double \<Rightarrow> double" where
  "d_div (Fin a) (Fin b) = (if b = 0 then infinityOf (d_sign (Fin a)) else fl (a / b))"
| "d_div NaN _ = NaN"
| "d_div _ NaN = NaN"
| "d_div (Fin a) _ = Fin 0"
| "d_div a (Fin b) = (if b < 0 then d_neg a else a)"
| "d_div _ _ = NaN"

fun d_le :: "double \<Rightarrow> double \<Rightarrow> bool" where
  "d_le (Fin a) (Fin b) = (a \<le> b)"
| "d_le NaN _ = False"
| "d_le _ NaN = False"
| "d_le NInf _ = True"
| "d_le _ PInf = True"
| "d_le _ _ = False"

definition d_max :: "double \<Rightarrow> double \<Rightarrow> double" where
  "d_max a b = (if a = NaN \<or> b = NaN then NaN else if d_le a b then b else a)"

definition d_min :: "double \<Rightarrow> double \<Rightarrow> double" where
  "d_min a b = (if a = NaN \<or> b = NaN then NaN else if d_le a b then a else b)"

definition binary64 :: "double arith" where
  "binary64 =
     \<lparr> num_lit = fl, num_add = d_add, num_sub = d_sub, num_mul = d_mul, num_div = d_div,
       num_le = d_le, num_ge = (\<lambda>a b. d_le b a), num_max = d_max, num_min = d_min \<rparr>"

text \<open>
  A concrete window, 400 by 800, whose scan frame is \<open>60 \<le> x \<le> 340\<close>,
  \<open>260 \<le> y \<le> 540\<close>, and a detected code with the given value whose bounding box is
  centered at the point \<open>(200, 400)\<close>, inside that scan frame.
\<close>

definition sampleWindow :: "double window" where
  "sampleWindow = \<lparr> SCREEN_WIDTH = Fin 400, SCREEN_HEIGHT = Fin 800, numbers = binary64 \<rparr>"

definition centered :: "string \<Rightarrow> double scan_code" where
  "centered v =
     \<lparr> code_value = Some v,
       code_frame = Some \<lparr> frame_x = Fin 150, frame_y = Fin 350, frame_width = Fin 100,
                           frame_height = Fin 100 \<rparr> \<rparr>"

text \<open>
  Further sample codes: one without a bounding box, one whose box is centered at
  \<open>(10, 10)\<close>, outside the sample window's scan frame, and one whose box is centered at
  \<open>(960, 540)\<close>, the middle of a 1920 by 1080 sensor.
\<close>

definition unplaced :: "string \<Rightarrow> double scan_code" where
  "unplaced v = \<lparr> code_value = Some v, code_frame = None \<rparr>"

definition cornered :: "string \<Rightarrow> double scan_code" where
  "cornered v =
     \<lparr> code_value = Some v,
       code_frame = Some \<lparr> frame_x = Fin 0, frame_y = Fin 0, frame_width = Fin 20,
                           frame_height = Fin 20 \<rparr> \<rparr>"

definition sensorCentered :: "string \<Rightarrow> double scan_code" where
  "sensorCentered v =
     \<lparr> code_value = Some v,
       code_frame = Some \<lparr> frame_x = Fin 860, frame_y = Fin 440, frame_width = Fin 200,
                           frame_height = Fin 200 \<rparr> \<rparr>"

definition fullHD :: "double camera_format" where
  "fullHD = \<lparr> videoWidth = Fin 1920, videoHeight = Fin 1080 \<rparr>"

text \<open>
  Windows at which the rounding of the arithmetic shows: 360 by 640, whose left bound
  \<open>(360 - 360 * 0.7) / 2\<close> comes out just above 54, and 414 by 896; and codes whose
  boxes are centered at \<open>(54, 320)\<close> and at \<open>(960, 162)\<close>.
\<close>

definition smallWindow :: "double window" where
  "smallWindow = \<lparr> SCREEN_WIDTH = Fin 360, SCREEN_HEIGHT = Fin 640, numbers = binary64 \<rparr>"

definition tallWindow :: "double window" where
  "tallWindow = \<lparr> SCREEN_WIDTH = Fin 414, SCREEN_HEIGHT = Fin 896, numbers = binary64 \<rparr>"

definition edgeCode :: "string \<Rightarrow> double scan_code" where
  "edgeCode v =
     \<lparr> code_value = Some v,
       code_frame = Some \<lparr> frame_x = Fin 44, frame_y = Fin 310, frame_width = Fin 20,
                           frame_height = Fin 20 \<rparr> \<rparr>"

definition sensorEdgeCode :: "string \<Rightarrow> double scan_code" where
  "sensorEdgeCode v =
     \<lparr> code_value = Some v,
       code_frame = Some \<lparr> frame_x = Fin 950, frame_y = Fin 152, frame_width = Fin 20,
                           frame_height = Fin 20 \<rparr> \<rparr>"


section \<open>Auxiliary facts\<close>

lemma tick_screen [simp]:
  "isProcessing (tick t s) = isProcessing s"
  "lastScanTime (tick t s) = lastScanTime s"
  "inFlight (tick t s) = inFlight s"
  "alerts (tick t s) = alerts s"
  "navigated (tick t s) = navigated s"
  by (auto simp: tick_def clearBarcodeBuffer_def split: option.splits)

lemma tick_cases:
  "tick t s = s \<or> (tick t s = clearBarcodeBuffer s \<and> (\<exists>due. confirmTimeout s = Some due \<and> due \<le> t))"
  by (auto simp: tick_def split: option.splits)

lemma tick_not_due:
  "confirmTimeout s = Some due \<Longrightarrow> t < due \<Longrightarrow> tick t s = s"
  by (simp add: tick_def)

lemma tick_no_timer: "confirmTimeout s = None \<Longrightarrow> tick t s = s"
  by (simp add: tick_def)

lemma tick_empty_buffer: "barcodeBuffer s = [] \<Longrightarrow> barcodeBuffer (tick t s) = []"
  by (auto simp: tick_def clearBarcodeBuffer_def split: option.splits)

lemma handle_processing: "isProcessing s \<Longrightarrow> handleBarcodeScanned now b s = s"
  by (simp add: handleBarcodeScanned_def)

lemma handle_cooldown:
  "now - lastScanTime s < SCAN_COOLDOWN \<Longrightarrow> handleBarcodeScanned now b s = s"
  by (simp add: handleBarcodeScanned_def)

lemma handle_confirmed:
  "\<not> isProcessing s \<Longrightarrow> SCAN_COOLDOWN \<le> now - lastScanTime s \<Longrightarrow> confirms b (barcodeBuffer s) \<Longrightarrow>
   handleBarcodeScanned now b s =
     s\<lparr> isProcessing := True, lastScanTime := now, inFlight := inFlight s @ [b],
        barcodeBuffer := [], isConfirming := False, confirmProgress := 0, confirmTimeout := None \<rparr>"
  by (simp add: handleBarcodeScanned_def confirms_def Let_def processBarcodeRequest_def
      clearBarcodeBuffer_def)

lemma handle_unconfirmed:
  "\<not> isProcessing s \<Longrightarrow> SCAN_COOLDOWN \<le> now - lastScanTime s \<Longrightarrow> \<not> confirms b (barcodeBuffer s) \<Longrightarrow>
   handleBarcodeScanned now b s =
     s\<lparr> lastScanTime := now, barcodeBuffer := barcodeBuffer s @ [b], isConfirming := True,
        confirmProgress := of_nat (length (slice_last CONFIRM_COUNT (barcodeBuffer s @ [b])))
                           / of_nat CONFIRM_COUNT,
        confirmTimeout := Some (now + CONFIRM_TIMEOUT) \<rparr>"
  by (auto simp add: handleBarcodeScanned_def confirms_def Let_def)

lemma confirms_iff:
  "confirms b buf \<longleftrightarrow> (\<exists>pre. buf = pre @ [b, b])"
proof
  assume c: "confirms b buf"
  then have "3 \<le> length (drop (length buf - 2) (buf @ [b]))"
    by (simp add: confirms_def slice_last_def CONFIRM_COUNT_def)
  then have len: "2 \<le> length buf"
    by simp
  have "\<exists>pre x y. buf = pre @ [x, y]"
  proof (cases buf rule: rev_cases)
    case Nil
    with len show ?thesis by simp
  next
    case (snoc ys y)
    show ?thesis
    proof (cases ys rule: rev_cases)
      case Nil
      with snoc len show ?thesis by simp
    next
      case (snoc zs x)
      with \<open>buf = ys @ [y]\<close> show ?thesis by simp
    qed
  qed
  then obtain pre x y where buf: "buf = pre @ [x, y]"
    by blast
  with c show "\<exists>pre. buf = pre @ [b, b]"
    by (simp add: confirms_def slice_last_def CONFIRM_COUNT_def)
next
  assume "\<exists>pre. buf = pre @ [b, b]"
  then show "confirms b buf"
    by (auto simp add: confirms_def slice_last_def CONFIRM_COUNT_def)
qed

lemma confirms_simps [simp]:
  "confirms b [] = False" "confirms b [x] = False"
  "confirms b (pre @ [x, y]) = (x = b \<and> y = b)"
  by (auto simp: confirms_iff)

section \<open>The confirmation accumulator (variant A)\<close>

text \<open>
  C1, as the code has it. Three reads of the same value delivered to an accumulator whose
  buffer is empty and whose processing flag is clear, the first at least
  \<open>SCAN_COOLDOWN\<close> after the last accepted read (\<open>lastScanTime\<close>, which clearing the
  buffer does not reset), the second and the third at least \<open>SCAN_COOLDOWN\<close> and less
  than \<open>CONFIRM_TIMEOUT\<close> after the read before: nothing is dispatched on the first and
  the second read, the third dispatches the lookup of the value, once, and leaves the
  buffer empty, the timer cancelled and the flag set.
\<close>

theorem three_identical_reads_confirm:
  assumes "barcodeBuffer s = []" and "\<not> isProcessing s"
    and "lastScanTime s + SCAN_COOLDOWN \<le> t1"
    and "t1 + SCAN_COOLDOWN \<le> t2" and "t2 < t1 + CONFIRM_TIMEOUT"
    and "t2 + SCAN_COOLDOWN \<le> t3" and "t3 < t2 + CONFIRM_TIMEOUT"
  shows "inFlight (scanReads [(t1, v)] s) = inFlight s \<and>
         inFlight (scanReads [(t1, v), (t2, v)] s) = inFlight s \<and>
         inFlight (scanReads [(t1, v), (t2, v), (t3, v)] s) = inFlight s @ [v] \<and>
         barcodeBuffer (scanReads [(t1, v), (t2, v), (t3, v)] s) = [] \<and>
         confirmTimeout (scanReads [(t1, v), (t2, v), (t3, v)] s) = None \<and>
         isProcessing (scanReads [(t1, v), (t2, v), (t3, v)] s)"
proof -
  define s1 where "s1 = scanRead (t1, v) s"
  define s2 where "s2 = scanRead (t2, v) s1"
  define s3 where "s3 = scanRead (t3, v) s2"
  have b0: "barcodeBuffer (tick t1 s) = []"
    using assms(1) by (rule tick_empty_buffer)
  have c0: "\<not> confirms v (barcodeBuffer (tick t1 s))"
    by (simp add: b0)
  have s1: "s1 = (tick t1 s)\<lparr> lastScanTime := t1, barcodeBuffer := [v], isConfirming := True,
        confirmProgress := of_nat (length (slice_last CONFIRM_COUNT [v])) / of_nat CONFIRM_COUNT,
        confirmTimeout := Some (t1 + CONFIRM_TIMEOUT) \<rparr>"
    unfolding s1_def scanRead_def fst_conv snd_conv
    using handle_unconfirmed [of "tick t1 s" t1 v] assms(2,3) c0 b0 by simp
  have k1: "tick t2 s1 = s1"
    using assms(5) by (simp add: s1 tick_def)
  have s2: "s2 = s1\<lparr> lastScanTime := t2, barcodeBuffer := [v, v], isConfirming := True,
        confirmProgress := of_nat (length (slice_last CONFIRM_COUNT [v, v])) / of_nat CONFIRM_COUNT,
        confirmTimeout := Some (t2 + CONFIRM_TIMEOUT) \<rparr>"
    unfolding s2_def scanRead_def fst_conv snd_conv k1
    using handle_unconfirmed [of s1 t2 v] assms(2,4) by (simp add: s1)
  have k2: "tick t3 s2 = s2"
    using assms(7) by (simp add: s2 tick_def)
  have s3: "s3 = s2\<lparr> isProcessing := True, lastScanTime := t3, inFlight := inFlight s2 @ [v],
        barcodeBuffer := [], isConfirming := False, confirmProgress := 0, confirmTimeout := None \<rparr>"
    unfolding s3_def scanRead_def fst_conv snd_conv k2
    using handle_confirmed [of s2 t3 v] assms(2,6) confirms_simps(3) [of v "[]" v v]
    by (simp add: s2 s1)
  have "scanReads [(t1, v)] s = s1" "scanReads [(t1, v), (t2, v)] s = s2"
    "scanReads [(t1, v), (t2, v), (t3, v)] s = s3"
    by (simp_all add: s1_def s2_def s3_def)
  then show ?thesis
    by (simp add: s3 s2 s1)
qed

theorem three_identical_reads_confirm_witness:
  "inFlight (scanReads [(1000, ''A''), (1600, ''A'')] initScreenA) = [] \<and>
   inFlight (scanReads [(1000, ''A''), (1600, ''A''), (2200, ''A'')] initScreenA) = [''A''] \<and>
   barcodeBuffer (scanReads [(1000, ''A''), (1600, ''A''), (2200, ''A'')] initScreenA) = []"
  using three_identical_reads_confirm [of initScreenA 1000 1600 2200 "''A''"]
  by (simp add: initScreenA_def SCAN_COOLDOWN_def CONFIRM_TIMEOUT_def)

text \<open>
  A read of \<open>A\<close> at 1000, then blur and focus: the buffer is empty, nothing is in flight
  and the flag is clear, but \<open>lastScanTime\<close> is still 1000. Three reads of \<open>B\<close> follow,
  600 ms apart, the first at 1200: it falls in the cooldown, and after the third the
  buffer holds two entries and nothing is dispatched. And from the screen as mounted,
  three reads of \<open>B\<close> of which the second comes exactly \<open>CONFIRM_TIMEOUT\<close> after the
  first: the timer is due, the buffer is cleared before the second read, and the third
  dispatches nothing.
\<close>

theorem stale_cooldown_blocks_confirmation:
  "barcodeBuffer (onFocus (onBlur (scanRead (1000, ''A'') initScreenA))) = [] \<and>
   inFlight (onFocus (onBlur (scanRead (1000, ''A'') initScreenA))) = [] \<and>
   isProcessing (onFocus (onBlur (scanRead (1000, ''A'') initScreenA))) = False \<and>
   lastScanTime (onFocus (onBlur (scanRead (1000, ''A'') initScreenA))) = 1000 \<and>
   inFlight (scanReads [(1200, ''B''), (1800, ''B''), (2400, ''B'')]
     (onFocus (onBlur (scanRead (1000, ''A'') initScreenA)))) = [] \<and>
   barcodeBuffer (scanReads [(1200, ''B''), (1800, ''B''), (2400, ''B'')]
     (onFocus (onBlur (scanRead (1000, ''A'') initScreenA)))) = [''B'', ''B''] \<and>
   inFlight (scanReads [(1000, ''B''), (3500, ''B''), (4100, ''B'')] initScreenA) = [] \<and>
   barcodeBuffer (scanReads [(1000, ''B''), (3500, ''B''), (4100, ''B'')] initScreenA)
     = [''B'', ''B'']"
  by (simp add: scanRead_def tick_def handleBarcodeScanned_def onFocus_def onBlur_def
      clearBarcodeBuffer_def initScreenA_def SCAN_COOLDOWN_def CONFIRM_COUNT_def
      CONFIRM_TIMEOUT_def slice_last_def Let_def)

lemma scanRead_unconfirmed:
  assumes "\<not> isProcessing s" and "lastScanTime s + SCAN_COOLDOWN \<le> t"
    and "\<not> confirms v (barcodeBuffer (tick t s))"
  shows "scanRead (t, v) s =
     (tick t s)\<lparr> lastScanTime := t, barcodeBuffer := barcodeBuffer (tick t s) @ [v],
        isConfirming := True,
        confirmProgress := of_nat (length (slice_last CONFIRM_COUNT (barcodeBuffer (tick t s) @ [v])))
                           / of_nat CONFIRM_COUNT,
        confirmTimeout := Some (t + CONFIRM_TIMEOUT) \<rparr>"
  unfolding scanRead_def fst_conv snd_conv
  using handle_unconfirmed [of "tick t s" t v] assms by simp

lemma scanRead_confirmed:
  assumes "\<not> isProcessing s" and "lastScanTime s + SCAN_COOLDOWN \<le> t"
    and "confirms v (barcodeBuffer (tick t s))"
  shows "scanRead (t, v) s =
     (tick t s)\<lparr> isProcessing := True, lastScanTime := t, inFlight := inFlight s @ [v],
        barcodeBuffer := [], isConfirming := False, confirmProgress := 0, confirmTimeout := None \<rparr>"
  unfolding scanRead_def fst_conv snd_conv
  using handle_confirmed [of "tick t s" t v] assms by simp

text \<open>
  C2. The window slides over the last three buffer entries: for the reads
  \<open>[a, b, a, a, a]\<close> with \<open>a \<noteq> b\<close>, 600 ms apart, the first passing the cooldown,
  delivered to an accumulator with an empty buffer and a clear flag, nothing is dispatched
  on reads one to four (the buffer then holds all four reads), and the fifth read
  dispatches the lookup of \<open>a\<close> and empties the buffer.
\<close>

theorem sliding_window_example:
  assumes "barcodeBuffer s = []" and "\<not> isProcessing s"
    and "lastScanTime s + SCAN_COOLDOWN \<le> t" and "a \<noteq> b"
  shows "inFlight (scanReads [(t, a)] s) = inFlight s \<and>
         inFlight (scanReads [(t, a), (t + 600, b)] s) = inFlight s \<and>
         inFlight (scanReads [(t, a), (t + 600, b), (t + 1200, a)] s) = inFlight s \<and>
         inFlight (scanReads [(t, a), (t + 600, b), (t + 1200, a), (t + 1800, a)] s) = inFlight s \<and>
         barcodeBuffer (scanReads [(t, a), (t + 600, b), (t + 1200, a), (t + 1800, a)] s) = [a, b, a, a] \<and>
         inFlight (scanReads [(t, a), (t + 600, b), (t + 1200, a), (t + 1800, a), (t + 2400, a)] s)
           = inFlight s @ [a] \<and>
         barcodeBuffer (scanReads [(t, a), (t + 600, b), (t + 1200, a), (t + 1800, a), (t + 2400, a)] s) = []"
proof -
  define s1 where "s1 = scanRead (t, a) s"
  define s2 where "s2 = scanRead (t + 600, b) s1"
  define s3 where "s3 = scanRead (t + 1200, a) s2"
  define s4 where "s4 = scanRead (t + 1800, a) s3"
  define s5 where "s5 = scanRead (t + 2400, a) s4"
  have b0: "barcodeBuffer (tick t s) = []"
    using assms(1) by (rule tick_empty_buffer)
  have s1: "isProcessing s1 = False" "lastScanTime s1 = t" "inFlight s1 = inFlight s"
    "barcodeBuffer s1 = [a]" "confirmTimeout s1 = Some (t + CONFIRM_TIMEOUT)"
    unfolding s1_def using scanRead_unconfirmed [of s t a] assms(2,3) b0 by simp_all
  have k1: "tick (t + 600) s1 = s1"
    by (rule tick_not_due [OF s1(5)]) (simp add: CONFIRM_TIMEOUT_def)
  have s2: "isProcessing s2 = False" "lastScanTime s2 = t + 600" "inFlight s2 = inFlight s"
    "barcodeBuffer s2 = [a, b]" "confirmTimeout s2 = Some (t + 600 + CONFIRM_TIMEOUT)"
    unfolding s2_def using scanRead_unconfirmed [of s1 "t + 600" b] s1 k1
    by (simp_all add: SCAN_COOLDOWN_def)
  have k2: "tick (t + 1200) s2 = s2"
    by (rule tick_not_due [OF s2(5)]) (simp add: CONFIRM_TIMEOUT_def)
  have c2: "\<not> confirms a [a, b]"
    using confirms_simps(3) [of a "[]" a b] assms(4) by simp
  have s3: "isProcessing s3 = False" "lastScanTime s3 = t + 1200" "inFlight s3 = inFlight s"
    "barcodeBuffer s3 = [a, b, a]" "confirmTimeout s3 = Some (t + 1200 + CONFIRM_TIMEOUT)"
    unfolding s3_def using scanRead_unconfirmed [of s2 "t + 1200" a] s2 k2 c2
    by (simp_all add: SCAN_COOLDOWN_def)
  have k3: "tick (t + 1800) s3 = s3"
    by (rule tick_not_due [OF s3(5)]) (simp add: CONFIRM_TIMEOUT_def)
  have c3: "\<not> confirms a [a, b, a]"
    using confirms_simps(3) [of a "[a]" b a] assms(4) by simp
  have s4: "isProcessing s4 = False" "lastScanTime s4 = t + 1800" "inFlight s4 = inFlight s"
    "barcodeBuffer s4 = [a, b, a, a]" "confirmTimeout s4 = Some (t + 1800 + CONFIRM_TIMEOUT)"
    unfolding s4_def using scanRead_unconfirmed [of s3 "t + 1800" a] s3 k3 c3
    by (simp_all add: SCAN_COOLDOWN_def)
  have k4: "tick (t + 2400) s4 = s4"
    by (rule tick_not_due [OF s4(5)]) (simp add: CONFIRM_TIMEOUT_def)
  have c4: "confirms a [a, b, a, a]"
    using confirms_simps(3) [of a "[a, b]" a a] by simp
  have s5: "inFlight s5 = inFlight s @ [a]" "barcodeBuffer s5 = []"
    unfolding s5_def using scanRead_confirmed [of s4 "t + 2400" a] s4 k4 c4
    by (simp_all add: SCAN_COOLDOWN_def)
  have "scanReads [(t, a)] s = s1" "scanReads [(t, a), (t + 600, b)] s = s2"
    "scanReads [(t, a), (t + 600, b), (t + 1200, a)] s = s3"
    "scanReads [(t, a), (t + 600, b), (t + 1200, a), (t + 1800, a)] s = s4"
    "scanReads [(t, a), (t + 600, b), (t + 1200, a), (t + 1800, a), (t + 2400, a)] s = s5"
    by (simp_all add: s1_def s2_def s3_def s4_def s5_def)
  then show ?thesis
    by (simp add: s1 s2 s3 s4 s5)
qed

theorem sliding_window_example_witness:
  "inFlight (scanReads [(1000, ''A''), (1600, ''B''), (2200, ''A''), (2800, ''A'')] initScreenA) = [] \<and>
   inFlight (scanReads [(1000, ''A''), (1600, ''B''), (2200, ''A''), (2800, ''A''), (3400, ''A'')]
     initScreenA) = [''A'']"
  using sliding_window_example [of initScreenA 1000 "''A''" "''B''"]
  by (simp add: initScreenA_def SCAN_COOLDOWN_def)

lemma slice_last_length: "length (slice_last n xs) = min (length xs) n"
  by (simp add: slice_last_def)

text \<open>
  C5, as the code has it. After every read that passes the flag and the cooldown and
  does not confirm, the progress ratio is the number of entries of the last-\<open>N\<close>
  window, matching the read or not, divided by \<open>N\<close>: the smaller of the buffer's
  length and \<open>N\<close>, over \<open>N\<close>.
\<close>

theorem progress_is_window_length:
  assumes "\<not> isProcessing (handleBarcodeScanned now barcode s)"
    and "SCAN_COOLDOWN \<le> now - lastScanTime s"
  shows "confirmProgress (handleBarcodeScanned now barcode s) =
           of_nat (length (slice_last CONFIRM_COUNT
                     (barcodeBuffer (handleBarcodeScanned now barcode s)))) / of_nat CONFIRM_COUNT \<and>
         confirmProgress (handleBarcodeScanned now barcode s) =
           of_nat (min (length (barcodeBuffer (handleBarcodeScanned now barcode s))) CONFIRM_COUNT)
             / of_nat CONFIRM_COUNT \<and>
         barcodeBuffer (handleBarcodeScanned now barcode s) = barcodeBuffer s @ [barcode] \<and>
         isConfirming (handleBarcodeScanned now barcode s)"
proof -
  have np: "\<not> isProcessing s"
    using assms(1) handle_processing [of s now barcode] by auto
  have nc: "\<not> confirms barcode (barcodeBuffer s)"
    using assms handle_confirmed [of s now barcode] np by auto
  show ?thesis
    using handle_unconfirmed [OF np assms(2) nc] by (simp add: slice_last_length)
qed

theorem progress_is_window_length_witness:
  "confirmProgress (handleBarcodeScanned 1600 ''B'' (handleBarcodeScanned 1000 ''A'' initScreenA))
     = 2 / 3 \<and>
   barcodeBuffer (handleBarcodeScanned 1600 ''B'' (handleBarcodeScanned 1000 ''A'' initScreenA))
     = [''A'', ''B'']"
proof -
  have s1: "handleBarcodeScanned 1000 ''A'' initScreenA =
      initScreenA\<lparr> lastScanTime := 1000, barcodeBuffer := [''A''], isConfirming := True,
        confirmProgress := 1 / 3, confirmTimeout := Some 3500 \<rparr>"
    by (simp add: handleBarcodeScanned_def initScreenA_def SCAN_COOLDOWN_def CONFIRM_COUNT_def
        CONFIRM_TIMEOUT_def slice_last_def Let_def)
  have s2: "handleBarcodeScanned 1600 ''B'' (handleBarcodeScanned 1000 ''A'' initScreenA) =
      initScreenA\<lparr> lastScanTime := 1600, barcodeBuffer := [''A'', ''B''], isConfirming := True,
        confirmProgress := 2 / 3, confirmTimeout := Some 4100 \<rparr>"
    unfolding s1
    by (simp add: handleBarcodeScanned_def initScreenA_def SCAN_COOLDOWN_def CONFIRM_COUNT_def
        CONFIRM_TIMEOUT_def slice_last_def Let_def)
  have h1: "\<not> isProcessing
      (handleBarcodeScanned 1600 ''B'' (handleBarcodeScanned 1000 ''A'' initScreenA))"
    unfolding s2 by (simp add: initScreenA_def)
  have h2: "SCAN_COOLDOWN \<le> 1600 - lastScanTime (handleBarcodeScanned 1000 ''A'' initScreenA)"
    unfolding s1 by (simp add: SCAN_COOLDOWN_def)
  show ?thesis
    using progress_is_window_length [OF h1 h2]
    unfolding s2 by (simp add: CONFIRM_COUNT_def)
qed

text \<open>
  The ratio is not the number of matching entries over \<open>N\<close>: after the reads \<open>A\<close>,
  \<open>B\<close> the window \<open>[A, B]\<close> has one entry equal to the current value \<open>B\<close>, and the
  progress shown is two thirds.
\<close>

theorem progress_not_matching_entries:
  "confirmProgress (scanReads [(1000, ''A''), (1600, ''B'')] initScreenA) = 2 / 3 \<and>
   rat_of_nat (length (filter ((=) ''B'')
      (slice_last CONFIRM_COUNT
         (barcodeBuffer (scanReads [(1000, ''A''), (1600, ''B'')] initScreenA)))))
     / rat_of_nat CONFIRM_COUNT = 1 / 3 \<and>
   isProcessing (scanReads [(1000, ''A''), (1600, ''B'')] initScreenA) = False"
  by (simp add: scanRead_def tick_def handleBarcodeScanned_def initScreenA_def SCAN_COOLDOWN_def
      CONFIRM_COUNT_def CONFIRM_TIMEOUT_def slice_last_def Let_def)

lemma noRun_suffix: "noRun n (xs @ ys) \<Longrightarrow> noRun n ys"
  by (induction xs) auto

lemma noRun_prefix: "noRun n (xs @ ys) \<Longrightarrow> noRun n xs"
proof (induction xs)
  case Nil
  show ?case by simp
next
  case (Cons x xs)
  have "take n ((x # xs) @ ys) = take n (x # xs)" if "n \<le> length (x # xs)"
    using that by (simp only: take_append take_all_iff) simp
  with Cons show ?case
    by auto
qed

lemma noRun_not_confirms:
  assumes "noRun CONFIRM_COUNT (buf @ [b])"
  shows "\<not> confirms b buf"
proof
  assume "confirms b buf"
  then obtain pre where "buf = pre @ [b, b]"
    by (auto simp: confirms_iff)
  then have "buf @ [b] = pre @ [b, b, b]"
    by simp
  with assms have "noRun CONFIRM_COUNT [b, b, b]"
    using noRun_suffix [of CONFIRM_COUNT pre "[b, b, b]"] by simp
  then show False
    by (simp add: CONFIRM_COUNT_def)
qed

lemma cooledValues_take:
  "\<exists>ys. cooledValues prev rs = cooledValues prev (take k rs) @ ys"
proof (induction rs arbitrary: prev k)
  case Nil
  show ?case by simp
next
  case (Cons r rs)
  show ?case
  proof (cases k)
    case 0
    then show ?thesis by simp
  next
    case (Suc j)
    show ?thesis
    proof (cases "fst r - prev < SCAN_COOLDOWN")
      case True
      with Cons [of prev j] Suc show ?thesis by simp
    next
      case False
      with Cons [of "fst r" j] Suc show ?thesis by simp
    qed
  qed
qed

text \<open>The state the accumulator is in between reads: at rest, or with its timer running.\<close>

lemma tick_buffer_cases:
  "barcodeBuffer (tick t s) = barcodeBuffer s \<or> barcodeBuffer (tick t s) = []"
  by (auto simp: tick_def clearBarcodeBuffer_def split: option.splits)

lemma tick_armed:
  "idle s \<or> confirmTimeout s = Some (lastScanTime s + CONFIRM_TIMEOUT) \<Longrightarrow>
   idle (tick t s) \<or> confirmTimeout (tick t s) = Some (lastScanTime (tick t s) + CONFIRM_TIMEOUT)"
  by (auto simp: tick_def clearBarcodeBuffer_def idle_def split: option.splits)

lemma scanReads_quiet:
  assumes "\<not> isProcessing s"
    and "noRun CONFIRM_COUNT (barcodeBuffer s @ cooledValues (lastScanTime s) rs)"
    and "idle s \<or> confirmTimeout s = Some (lastScanTime s + CONFIRM_TIMEOUT)"
  shows "inFlight (scanReads rs s) = inFlight s \<and> alerts (scanReads rs s) = alerts s \<and>
         navigated (scanReads rs s) = navigated s \<and> \<not> isProcessing (scanReads rs s) \<and>
         (idle (scanReads rs s) \<or>
          confirmTimeout (scanReads rs s) = Some (lastScanTime (scanReads rs s) + CONFIRM_TIMEOUT))"
  using assms
proof (induction rs arbitrary: s)
  case Nil
  then show ?case by simp
next
  case (Cons r rs)
  obtain t v where r: "r = (t, v)"
    by (cases r)
  let ?s0 = "tick t s"
  have np0: "\<not> isProcessing ?s0"
    using Cons.prems(1) by simp
  have armed0: "idle ?s0 \<or> confirmTimeout ?s0 = Some (lastScanTime ?s0 + CONFIRM_TIMEOUT)"
    using Cons.prems(3) by (rule tick_armed)
  have run0: "noRun CONFIRM_COUNT (barcodeBuffer ?s0 @ cooledValues (lastScanTime s) (r # rs))"
    using tick_buffer_cases [of t s] Cons.prems(2)
      noRun_suffix [of CONFIRM_COUNT "barcodeBuffer s" "cooledValues (lastScanTime s) (r # rs)"]
    by auto
  show ?case
  proof (cases "t - lastScanTime s < SCAN_COOLDOWN")
    case True
    then have step: "scanRead r s = ?s0"
      by (simp add: r scanRead_def handle_cooldown)
    have "noRun CONFIRM_COUNT (barcodeBuffer ?s0 @ cooledValues (lastScanTime ?s0) rs)"
      using run0 True by (simp add: r)
    from Cons.IH [OF np0 this armed0] show ?thesis
      by (simp add: step)
  next
    case False
    then have cool: "lastScanTime s + SCAN_COOLDOWN \<le> t"
      by simp
    have run1: "noRun CONFIRM_COUNT ((barcodeBuffer ?s0 @ [v]) @ cooledValues t rs)"
      using run0 False by (simp add: r)
    then have nc: "\<not> confirms v (barcodeBuffer ?s0)"
      using noRun_prefix noRun_not_confirms by blast
    define s1 where "s1 = scanRead r s"
    have s1: "isProcessing s1 = False" "lastScanTime s1 = t" "inFlight s1 = inFlight s"
      "alerts s1 = alerts s" "navigated s1 = navigated s"
      "barcodeBuffer s1 = barcodeBuffer ?s0 @ [v]" "confirmTimeout s1 = Some (t + CONFIRM_TIMEOUT)"
      unfolding s1_def r using scanRead_unconfirmed [OF Cons.prems(1) cool nc] Cons.prems(1)
      by simp_all
    have "inFlight (scanReads rs s1) = inFlight s1 \<and> alerts (scanReads rs s1) = alerts s1 \<and>
         navigated (scanReads rs s1) = navigated s1 \<and> \<not> isProcessing (scanReads rs s1) \<and>
         (idle (scanReads rs s1) \<or>
          confirmTimeout (scanReads rs s1) = Some (lastScanTime (scanReads rs s1) + CONFIRM_TIMEOUT))"
      by (rule Cons.IH) (use s1 run1 in simp_all)
    then show ?thesis
      by (simp add: s1 s1_def [symmetric])
  qed
qed

text \<open>
  C7. Reads delivered to an accumulator at rest with a clear flag, such that the
  reads passing the cooldown never hold \<open>CONFIRM_COUNT\<close> equal values in a row:
  no prefix of the run dispatches a lookup; and a timer callback at any time
  \<open>CONFIRM_TIMEOUT\<close> or more after the last accepted read leaves the buffer empty
  and the accumulator at rest, with no alert raised and the flag still clear.
\<close>

theorem changing_values_never_confirm:
  assumes "idle s" and "\<not> isProcessing s"
    and "noRun CONFIRM_COUNT (cooledValues (lastScanTime s) rs)"
    and "lastScanTime (scanReads rs s) + CONFIRM_TIMEOUT \<le> t"
  shows "inFlight (scanReads (take k rs) s) = inFlight s \<and>
         inFlight (scanReads rs s) = inFlight s \<and>
         barcodeBuffer (tick t (scanReads rs s)) = [] \<and>
         idle (tick t (scanReads rs s)) \<and>
         alerts (tick t (scanReads rs s)) = alerts s \<and>
         \<not> isProcessing (tick t (scanReads rs s))"
proof -
  have buf: "barcodeBuffer s = []"
    using assms(1) by (simp add: idle_def)
  have rest: "idle s \<or> confirmTimeout s = Some (lastScanTime s + CONFIRM_TIMEOUT)"
    using assms(1) by simp
  obtain ys where "cooledValues (lastScanTime s) rs = cooledValues (lastScanTime s) (take k rs) @ ys"
    using cooledValues_take by blast
  with assms(3) have "noRun CONFIRM_COUNT (cooledValues (lastScanTime s) (take k rs))"
    using noRun_prefix by metis
  then have pre: "inFlight (scanReads (take k rs) s) = inFlight s"
    using scanReads_quiet [of s "take k rs"] assms(2) rest by (simp add: buf)
  have all: "inFlight (scanReads rs s) = inFlight s" "alerts (scanReads rs s) = alerts s"
    "\<not> isProcessing (scanReads rs s)"
    "idle (scanReads rs s) \<or>
     confirmTimeout (scanReads rs s) = Some (lastScanTime (scanReads rs s) + CONFIRM_TIMEOUT)"
    using scanReads_quiet [of s rs] assms(2,3) rest by (simp_all add: buf)
  have "idle (tick t (scanReads rs s))"
    using all(4) assms(4) by (auto simp: tick_def idle_def clearBarcodeBuffer_def)
  then show ?thesis
    using pre all by (simp add: idle_def)
qed

theorem changing_values_never_confirm_witness:
  "inFlight (scanReads [(1000, ''A''), (1600, ''B''), (2200, ''A'')] initScreenA) = [] \<and>
   barcodeBuffer (scanReads [(1000, ''A''), (1600, ''B''), (2200, ''A'')] initScreenA)
     = [''A'', ''B'', ''A''] \<and>
   barcodeBuffer (tick 4700 (scanReads [(1000, ''A''), (1600, ''B''), (2200, ''A'')] initScreenA)) = []"
proof -
  have run: "scanReads [(1000, ''A''), (1600, ''B''), (2200, ''A'')] initScreenA =
      initScreenA\<lparr> lastScanTime := 2200, barcodeBuffer := [''A'', ''B'', ''A''],
        isConfirming := True, confirmProgress := 1, confirmTimeout := Some 4700 \<rparr>"
    by (simp add: scanRead_def tick_def handleBarcodeScanned_def initScreenA_def SCAN_COOLDOWN_def
        CONFIRM_COUNT_def CONFIRM_TIMEOUT_def slice_last_def Let_def)
  have h1: "idle initScreenA" and h2: "\<not> isProcessing initScreenA"
    by (simp_all add: idle_def initScreenA_def)
  have h3: "noRun CONFIRM_COUNT (cooledValues (lastScanTime initScreenA)
      [(1000, ''A''), (1600, ''B''), (2200, ''A'')])"
    by (simp add: initScreenA_def SCAN_COOLDOWN_def CONFIRM_COUNT_def)
  have h4: "lastScanTime (scanReads [(1000, ''A''), (1600, ''B''), (2200, ''A'')] initScreenA)
      + CONFIRM_TIMEOUT \<le> 4700"
    unfolding run by (simp add: CONFIRM_TIMEOUT_def)
  have "inFlight initScreenA = []"
    by (simp add: initScreenA_def)
  with changing_values_never_confirm [OF h1 h2 h3 h4, of 2] show ?thesis
    unfolding run by simp
qed

section \<open>Focus and blur\<close>

text \<open>
  C8. On blur the barcode buffer and the pending confirmation timer are cleared (no
  timer is left to fire later); on focus the processing flag is reset whatever it
  was and the buffer is cleared, so the accumulator is at rest; in variant B focus
  resets the flag and the last-scan timestamp.
\<close>

theorem focus_blur_reset:
  "barcodeBuffer (onBlur s) = [] \<and> confirmTimeout (onBlur s) = None \<and>
   tick t (onBlur s) = onBlur s \<and> idle (onBlur s) \<and>
   isProcessing (onFocus s) = False \<and> barcodeBuffer (onFocus s) = [] \<and> idle (onFocus s) \<and>
   idle (onFocus (onBlur s)) \<and> isProcessing (onFocus (onBlur s)) = False \<and>
   isProcessing (onFocus_B b) = False \<and> lastScanTime (onFocus_B b) = 0"
  by (simp add: onBlur_def onFocus_def onFocus_B_def clearBarcodeBuffer_def idle_def tick_def)

section \<open>The processing flag as a gate\<close>

lemma gated_tick [simp]: "gated (tick t s) = gated s"
  by (simp add: gated_def)

lemma gated_idle_fields:
  "inFlight s = [] \<Longrightarrow> alerts s = [] \<Longrightarrow> gated s"
  by (simp add: gated_def)

lemma gated_clear_flag:
  "gated s \<Longrightarrow> \<not> isProcessing s \<Longrightarrow> inFlight s = [] \<and> alerts s = []"
  by (auto simp: gated_def split: if_splits)

lemma gated_handle:
  assumes "gated s"
  shows "gated (handleBarcodeScanned now b s)"
proof (cases "isProcessing s")
  case True
  with assms show ?thesis by (simp add: handle_processing)
next
  case False
  with assms have e: "inFlight s = []" "alerts s = []"
    using gated_clear_flag by blast+
  show ?thesis
  proof (cases "now - lastScanTime s < SCAN_COOLDOWN")
    case True
    with assms show ?thesis by (simp add: handle_cooldown)
  next
    case cool: False
    show ?thesis
    proof (cases "confirms b (barcodeBuffer s)")
      case True
      with False cool e show ?thesis
        by (simp add: handle_confirmed gated_def)
    next
      case nc: False
      with False cool e show ?thesis
        by (simp add: handle_unconfirmed gated_def)
    qed
  qed
qed

lemma handle_B_processing: "isProcessing s \<Longrightarrow> handleBarcodeScanned_B now b s = s"
  by (simp add: handleBarcodeScanned_B_def)

lemma handle_B_debounce:
  "now - lastScanTime s < SCAN_DEBOUNCE \<Longrightarrow> handleBarcodeScanned_B now b s = s"
  by (simp add: handleBarcodeScanned_B_def)

lemma handle_B_accept:
  "\<not> isProcessing s \<Longrightarrow> SCAN_DEBOUNCE \<le> now - lastScanTime s \<Longrightarrow>
   handleBarcodeScanned_B now b s =
     s\<lparr> isProcessing := True, lastScanTime := now, inFlight := inFlight s @ [b] \<rparr>"
  by (simp add: handleBarcodeScanned_B_def processBarcodeRequest_B_def)

lemma gated_handle_B:
  assumes "gated s"
  shows "gated (handleBarcodeScanned_B now b s)"
proof (cases "isProcessing s \<or> now - lastScanTime s < SCAN_DEBOUNCE")
  case True
  with assms show ?thesis
    by (auto simp: handle_B_processing handle_B_debounce)
next
  case False
  with assms have "inFlight s = []" "alerts s = []"
    using gated_clear_flag by blast+
  with False show ?thesis
    by (simp add: handle_B_accept gated_def)
qed

lemma gated_lookupSettled:
  assumes "gated s"
  shows "gated (lookupSettled barcode r s)"
proof (cases "barcode \<in> set (inFlight s)")
  case False
  with assms show ?thesis by (simp add: lookupSettled_def)
next
  case True
  then have "inFlight s \<noteq> []" by auto
  with assms have p: "isProcessing s" and one: "length (inFlight s) + length (alerts s) = 1"
    by (auto simp: gated_def split: if_splits)
  from one \<open>inFlight s \<noteq> []\<close> have "length (inFlight s) = 1" "alerts s = []"
    by (cases "inFlight s"; simp)+
  with True have "inFlight s = [barcode]"
    by (cases "inFlight s") auto
  with p \<open>alerts s = []\<close> show ?thesis
    by (auto simp: lookupSettled_def gated_def Let_def split: option.splits)
qed

lemma gated_alertOk:
  assumes "gated s"
  shows "gated (alertOk s)"
proof (cases "alerts s")
  case Nil
  with assms show ?thesis by (simp add: alertOk_def)
next
  case (Cons a rest)
  with assms have "length (inFlight s) + length (alerts s) = 1"
    by (auto simp: gated_def split: if_splits)
  with Cons have "inFlight s = []" "rest = []"
    by simp_all
  with Cons show ?thesis
    by (simp add: alertOk_def gated_def)
qed

lemma gated_step:
  assumes "gated s" and "if snd te = Focus then inFlight s = [] \<and> alerts s = [] else True"
  shows "gated (step d te s)"
proof (cases "snd te")
  case (CodesScanned codes)
  with assms(1) show ?thesis
    by (simp add: step_def Let_def gated_handle split: option.splits)
next
  case (LookupSettled barcode r)
  with assms(1) show ?thesis
    by (simp add: step_def Let_def gated_lookupSettled)
next
  case AlertOk
  with assms(1) show ?thesis
    by (simp add: step_def Let_def gated_alertOk)
next
  case Focus
  with assms(2) show ?thesis
    by (simp add: step_def Let_def onFocus_def clearBarcodeBuffer_def gated_def)
next
  case Blur
  with assms(1) show ?thesis
    by (simp add: step_def Let_def onBlur_def clearBarcodeBuffer_def gated_def)
qed

lemma gated_step_B:
  assumes "gated s" and "if snd te = Focus then inFlight s = [] \<and> alerts s = [] else True"
  shows "gated (step_B os fmt d te s)"
proof (cases "snd te")
  case (CodesScanned codes)
  with assms(1) show ?thesis
    by (simp add: step_B_def gated_handle_B split: option.splits)
next
  case (LookupSettled barcode r)
  with assms(1) show ?thesis
    by (simp add: step_B_def gated_lookupSettled)
next
  case AlertOk
  with assms(1) show ?thesis
    by (simp add: step_B_def gated_alertOk)
next
  case Focus
  with assms(2) show ?thesis
    by (simp add: step_B_def onFocus_B_def gated_def)
next
  case Blur
  with assms(1) show ?thesis
    by (simp add: step_B_def onBlur_B_def gated_def)
qed

lemma gated_run: "gated s \<Longrightarrow> focusSafe d es s \<Longrightarrow> gated (run d es s)"
  by (induction es arbitrary: s) (simp_all add: gated_step)

lemma gated_run_B:
  "gated s \<Longrightarrow> focusSafe_B os fmt d es s \<Longrightarrow> gated (run_B os fmt d es s)"
  by (induction es arbitrary: s) (simp_all add: gated_step_B)

lemma gated_one: "gated s \<Longrightarrow> length (inFlight s) \<le> 1 \<and> (inFlight s = [] \<or> isProcessing s)"
  by (auto simp: gated_def split: if_splits)

text \<open>
  The operations of the sample arithmetic that the examples evaluate, one at a time.
\<close>

lemma sample_arith_1:
  "fl (7 / 10) = Fin (3152519739159347 / 4503599627370496)"
  "d_mul (Fin 400) (Fin (3152519739159347 / 4503599627370496)) = Fin 280"
  "d_sub (Fin 400) (Fin 280) = Fin 120"
  "fl (2) = Fin 2"
  "d_div (Fin 120) (Fin 2) = Fin 60"
  "d_add (Fin 60) (Fin 280) = Fin 340"
  "d_sub (Fin 800) (Fin 280) = Fin 520"
  "d_div (Fin 520) (Fin 2) = Fin 260"
  by code_simp+

lemma sample_arith_2:
  "d_add (Fin 260) (Fin 280) = Fin 540"
  "d_mul (Fin 360) (Fin (3152519739159347 / 4503599627370496)) = Fin (8866461766385663 / 35184372088832)"
  "d_sub (Fin 360) (Fin (8866461766385663 / 35184372088832)) = Fin (3799912185593857 / 35184372088832)"
  "d_div (Fin (3799912185593857 / 35184372088832)) (Fin 2) = Fin (3799912185593857 / 70368744177664)"
  "d_add (Fin (3799912185593857 / 70368744177664)) (Fin (8866461766385663 / 35184372088832)) = Fin 306"
  "d_sub (Fin 640) (Fin (8866461766385663 / 35184372088832)) = Fin 388"
  "d_div (Fin 388) (Fin 2) = Fin 194"
  "d_add (Fin 194) (Fin (8866461766385663 / 35184372088832)) = Fin 446"
  by code_simp+

lemma sample_arith_3:
  "d_mul (Fin 414) (Fin (3152519739159347 / 4503599627370496)) = Fin (1274553878917939 / 4398046511104)"
  "d_sub (Fin 414) (Fin (1274553878917939 / 4398046511104)) = Fin (546237376679117 / 4398046511104)"
  "d_div (Fin (546237376679117 / 4398046511104)) (Fin 2) = Fin (546237376679117 / 8796093022208)"
  "d_add (Fin (546237376679117 / 8796093022208)) (Fin (1274553878917939 / 4398046511104)) = Fin (3095345134514995 / 8796093022208)"
  "d_sub (Fin 896) (Fin (1274553878917939 / 4398046511104)) = Fin (2666095795031245 / 4398046511104)"
  "d_div (Fin (2666095795031245 / 4398046511104)) (Fin 2) = Fin (2666095795031245 / 8796093022208)"
  "d_add (Fin (2666095795031245 / 8796093022208)) (Fin (1274553878917939 / 4398046511104)) = Fin (5215203552867123 / 8796093022208)"
  "d_div (Fin 100) (Fin 2) = Fin 50"
  by code_simp+

lemma sample_arith_4:
  "d_add (Fin 150) (Fin 50) = Fin 200"
  "d_add (Fin 350) (Fin 50) = Fin 400"
  "d_div (Fin 20) (Fin 2) = Fin 10"
  "d_add (Fin 0) (Fin 10) = Fin 10"
  "d_div (Fin 200) (Fin 2) = Fin 100"
  "d_add (Fin 860) (Fin 100) = Fin 960"
  "d_add (Fin 440) (Fin 100) = Fin 540"
  "d_add (Fin 44) (Fin 10) = Fin 54"
  by code_simp+

lemma sample_arith_5:
  "d_add (Fin 310) (Fin 10) = Fin 320"
  "d_add (Fin 950) (Fin 10) = Fin 960"
  "d_add (Fin 152) (Fin 10) = Fin 162"
  "d_div (Fin 540) (Fin 1080) = Fin (1 / 2)"
  "d_mul (Fin (1 / 2)) (Fin 400) = Fin 200"
  "d_div (Fin 960) (Fin 1920) = Fin (1 / 2)"
  "d_mul (Fin (1 / 2)) (Fin 800) = Fin 400"
  "d_div (Fin 400) (Fin 1080) = Fin (3335999723978145 / 9007199254740992)"
  by code_simp+

lemma sample_arith_6:
  "d_mul (Fin (3335999723978145 / 9007199254740992)) (Fin 400) = Fin (1303124892178963 / 8796093022208)"
  "d_div (Fin 200) (Fin 1920) = Fin (7505999378950827 / 72057594037927936)"
  "d_mul (Fin (7505999378950827 / 72057594037927936)) (Fin 800) = Fin (2932031007402667 / 35184372088832)"
  "d_div (Fin 162) (Fin 1080) = Fin (5404319552844595 / 36028797018963968)"
  "d_mul (Fin (5404319552844595 / 36028797018963968)) (Fin 414) = Fin (2184949506716467 / 35184372088832)"
  "d_mul (Fin (1 / 2)) (Fin 896) = Fin 448"
  by code_simp+

lemmas sample_arith =
  sample_arith_1 sample_arith_2 sample_arith_3 sample_arith_4 sample_arith_5 sample_arith_6

lemmas sample_eval =
  inScanFrame_def center_def screenCenter_def FRAME_SIZE_def SCAN_FRAME_LEFT_def
  SCAN_FRAME_RIGHT_def SCAN_FRAME_TOP_def SCAN_FRAME_BOTTOM_def sampleWindow_def smallWindow_def
  tallWindow_def fullHD_def binary64_def d_max_def d_min_def Let_def

lemma centered_inside:
  "inScanFrame sampleWindow
     (center sampleWindow \<lparr> frame_x = Fin 150, frame_y = Fin 350, frame_width = Fin 100,
                             frame_height = Fin 100 \<rparr>)"
  by (simp add: sample_eval sample_arith del: d_add.simps d_mul.simps d_div.simps)

lemma validCode_centered: "validCode sampleWindow (centered v) = (v \<noteq> [])"
  using centered_inside by (simp add: validCode_def noValue_def centered_def)

lemma centered_value [simp]:
  "noValue (centered v) = (v = [])" "code_value (centered v) = Some v"
  by (simp_all add: noValue_def centered_def)

lemma frameFilter_centered:
  "v \<noteq> [] \<Longrightarrow> frameFilter sampleWindow [centered v] = Some v"
  by (simp add: frameFilter_def acceptedValue_def validCode_centered)

lemma validCode_B_centered: "validCode_B OtherOS None sampleWindow (centered v) = (v \<noteq> [])"
  using centered_inside by (simp add: validCode_B_def screenCenter_def noValue_def centered_def)

lemma frameFilter_B_centered:
  "v \<noteq> [] \<Longrightarrow> frameFilter_B OtherOS None sampleWindow [centered v] = Some v"
  by (simp add: frameFilter_B_def acceptedValue_def validCode_B_centered)

lemma step_centered:
  "v \<noteq> [] \<Longrightarrow> step sampleWindow (t, CodesScanned [centered v]) s = scanRead (t, v) s"
  by (simp add: step_def scanRead_def frameFilter_centered)

lemma step_focus_blur:
  "step d (t, Focus) s = onFocus (tick t s)" "step d (t, Blur) s = onBlur (tick t s)"
  by (simp_all add: step_def)

lemma step_B_events:
  "step_B os fmt d (t, LookupSettled barcode r) s = lookupSettled barcode r s"
  "step_B os fmt d (t, AlertOk) s = alertOk s"
  "step_B os fmt d (t, Focus) s = onFocus_B s"
  by (simp_all add: step_B_def)

lemma run_append: "run d (es @ fs) s = run d fs (run d es s)"
  by (induction es arbitrary: s) simp_all

lemma step_B_centered:
  "v \<noteq> [] \<Longrightarrow> step_B OtherOS None sampleWindow (t, CodesScanned [centered v]) s
     = handleBarcodeScanned_B t v s"
  by (simp add: step_B_def frameFilter_B_centered)

text \<open>
  C9, as the code has it. A scan-ingestion callback that finds the processing flag set
  returns the state as it is. A lookup is started only by a callback that found the
  flag clear, and it sets the flag; so along every run in which each focus event
  arrives with no lookup pending and no alert open, at most one lookup is in flight,
  and while one is in flight the scan handler changes nothing. (The focus handler
  clears the flag whatever is pending.)
\<close>

theorem processing_flag_gate:
  assumes "gated s" and "focusSafe d es s" and "gated b" and "focusSafe_B os fmt d es' b"
  shows "length (inFlight (run d es s)) \<le> 1 \<and>
         (inFlight (run d es s) = [] \<or> handleBarcodeScanned now v (run d es s) = run d es s) \<and>
         length (inFlight (run_B os fmt d es' b)) \<le> 1 \<and>
         (inFlight (run_B os fmt d es' b) = [] \<or>
          handleBarcodeScanned_B now v (run_B os fmt d es' b) = run_B os fmt d es' b) \<and>
         (isProcessing x \<longrightarrow> handleBarcodeScanned now v x = x) \<and>
         (isProcessing y \<longrightarrow> handleBarcodeScanned_B now v y = y)"
proof -
  have a: "gated (run d es s)"
    using assms(1,2) by (rule gated_run)
  have b: "gated (run_B os fmt d es' b)"
    using assms(3,4) by (rule gated_run_B)
  show ?thesis
    using gated_one [OF a] gated_one [OF b]
    by (auto simp: handle_processing handle_B_processing)
qed

lemma run_A3:
  "scanReads [(1000, ''A''), (1600, ''A''), (2200, ''A'')] initScreenA =
     initScreenA\<lparr> isProcessing := True, lastScanTime := 2200, inFlight := [''A''] \<rparr>"
  by (simp add: scanRead_def tick_def handleBarcodeScanned_def processBarcodeRequest_def
      clearBarcodeBuffer_def initScreenA_def SCAN_COOLDOWN_def
      CONFIRM_COUNT_def CONFIRM_TIMEOUT_def slice_last_def Let_def)

theorem processing_flag_gate_witness:
  "length (inFlight (run sampleWindow
      [(1000, CodesScanned [centered ''A'']), (1600, CodesScanned [centered ''A'']),
       (2200, CodesScanned [centered ''A''])] initScreenA)) \<le> 1 \<and>
   inFlight (run sampleWindow
      [(1000, CodesScanned [centered ''A'']), (1600, CodesScanned [centered ''A'']),
       (2200, CodesScanned [centered ''A''])] initScreenA) = [''A''] \<and>
   length (inFlight (run_B OtherOS None sampleWindow
      [(2000, CodesScanned [centered ''A''])] initScreen)) \<le> 1"
proof -
  have h1: "gated initScreenA" and h3: "gated initScreen"
    by (simp_all add: gated_def initScreenA_def initScreen_def)
  have h2: "focusSafe sampleWindow
      [(1000, CodesScanned [centered ''A'']), (1600, CodesScanned [centered ''A'']),
       (2200, CodesScanned [centered ''A''])] initScreenA"
    by simp
  have h4: "focusSafe_B OtherOS None sampleWindow
      [(2000, CodesScanned [centered ''A''])] initScreen"
    by simp
  have r: "run sampleWindow
      [(1000, CodesScanned [centered ''A'']), (1600, CodesScanned [centered ''A'']),
       (2200, CodesScanned [centered ''A''])] initScreenA =
      scanReads [(1000, ''A''), (1600, ''A''), (2200, ''A'')] initScreenA"
    by (simp add: step_centered)
  have "inFlight (scanReads [(1000, ''A''), (1600, ''A''), (2200, ''A'')] initScreenA) = [''A'']"
    unfolding run_A3 by simp
  with processing_flag_gate [OF h1 h2 h3 h4] show ?thesis
    unfolding r by blast
qed

text \<open>
  Two lookups in flight. Variant A: three reads of \<open>A\<close> start a lookup; the screen
  loses and regains focus while it is pending, which clears the flag; three reads of
  \<open>B\<close> start a second lookup. Variant B: a read of \<open>A\<close>, a focus, a read of \<open>B\<close>.
\<close>

theorem second_lookup_after_focus:
  "inFlight (run sampleWindow
      [(1000, CodesScanned [centered ''A'']), (1600, CodesScanned [centered ''A'']),
       (2200, CodesScanned [centered ''A'']), (2300, Blur), (2400, Focus),
       (3000, CodesScanned [centered ''B'']), (3600, CodesScanned [centered ''B'']),
       (4200, CodesScanned [centered ''B''])] initScreenA) = [''A'', ''B''] \<and>
   inFlight (run_B OtherOS None sampleWindow
      [(2000, CodesScanned [centered ''A'']), (2100, Focus),
       (2200, CodesScanned [centered ''B''])] initScreen) = [''A'', ''B'']"
proof -
  have r: "run sampleWindow
      [(1000, CodesScanned [centered ''A'']), (1600, CodesScanned [centered ''A'']),
       (2200, CodesScanned [centered ''A''])] initScreenA =
      scanReads [(1000, ''A''), (1600, ''A''), (2200, ''A'')] initScreenA"
    by (simp add: step_centered)
  have "run sampleWindow
      ([(1000, CodesScanned [centered ''A'']), (1600, CodesScanned [centered ''A'']),
        (2200, CodesScanned [centered ''A''])] @
       [(2300, Blur), (2400, Focus),
        (3000, CodesScanned [centered ''B'']), (3600, CodesScanned [centered ''B'']),
        (4200, CodesScanned [centered ''B''])]) initScreenA =
      initScreenA\<lparr> isProcessing := True, lastScanTime := 4200, inFlight := [''A'', ''B''] \<rparr>"
    unfolding run_append r run_A3
    by (simp add: step_centered step_focus_blur scanRead_def tick_def handleBarcodeScanned_def
        processBarcodeRequest_def onFocus_def onBlur_def
        clearBarcodeBuffer_def initScreenA_def SCAN_COOLDOWN_def
        CONFIRM_COUNT_def CONFIRM_TIMEOUT_def slice_last_def Let_def)
  moreover have "inFlight (run_B OtherOS None sampleWindow
      [(2000, CodesScanned [centered ''A'']), (2100, Focus),
       (2200, CodesScanned [centered ''B''])] initScreen) = [''A'', ''B'']"
    by (simp add: step_B_centered step_B_events handleBarcodeScanned_B_def
        processBarcodeRequest_B_def onFocus_B_def initScreen_def SCAN_DEBOUNCE_def)
  ultimately show ?thesis
    by simp
qed

section \<open>The debounce gate (variant B)\<close>

lemma lookupSettled_fields:
  "lastScanTime (lookupSettled barcode r s) = lastScanTime s"
  "length (inFlight (lookupSettled barcode r s)) \<le> length (inFlight s)"
  by (auto simp: lookupSettled_def Let_def length_remove1 split: option.splits)

lemma alertOk_fields:
  "lastScanTime (alertOk s) = lastScanTime s" "inFlight (alertOk s) = inFlight s"
  by (auto simp: alertOk_def split: list.splits)

lemma step_B_dispatch:
  assumes "\<not> isRefocus te"
  shows "(length (inFlight s) < length (inFlight (step_B os fmt d te s)) \<and>
          lastScanTime (step_B os fmt d te s) = fst te \<and>
          SCAN_DEBOUNCE \<le> fst te - lastScanTime s) \<or>
         (length (inFlight (step_B os fmt d te s)) \<le> length (inFlight s) \<and>
          lastScanTime (step_B os fmt d te s) = lastScanTime s)"
proof (cases "snd te")
  case (CodesScanned codes)
  show ?thesis
  proof (cases "frameFilter_B os fmt d codes")
    case None
    with CodesScanned show ?thesis by (simp add: step_B_def)
  next
    case (Some v)
    then have st: "step_B os fmt d te s = handleBarcodeScanned_B (fst te) v s"
      using CodesScanned by (simp add: step_B_def)
    show ?thesis
    proof (cases "isProcessing s \<or> fst te - lastScanTime s < SCAN_DEBOUNCE")
      case True
      then have "handleBarcodeScanned_B (fst te) v s = s"
        by (auto simp: handle_B_processing handle_B_debounce)
      then show ?thesis by (simp add: st)
    next
      case False
      then show ?thesis by (simp add: st handle_B_accept)
    qed
  qed
next
  case (LookupSettled barcode r)
  then show ?thesis by (simp add: step_B_def lookupSettled_fields)
next
  case AlertOk
  then show ?thesis by (simp add: step_B_def alertOk_fields)
next
  case Focus
  with assms show ?thesis by (simp add: isRefocus_def)
next
  case Blur
  with assms show ?thesis by (simp add: isRefocus_def)
qed

lemma dispatchTimes_B_spaced:
  "list_all (\<lambda>te. \<not> isRefocus te) es \<Longrightarrow>
   spaced SCAN_DEBOUNCE (lastScanTime s # dispatchTimes_B os fmt d es s)"
proof (induction es arbitrary: s)
  case Nil
  show ?case by simp
next
  case (Cons te es)
  then have nr: "\<not> isRefocus te" and rest: "list_all (\<lambda>te. \<not> isRefocus te) es"
    by simp_all
  let ?s' = "step_B os fmt d te s"
  have ih: "spaced SCAN_DEBOUNCE (lastScanTime ?s' # dispatchTimes_B os fmt d es ?s')"
    using rest by (rule Cons.IH)
  from step_B_dispatch [OF nr, of s os fmt d] show ?case
  proof
    assume "length (inFlight s) < length (inFlight ?s') \<and> lastScanTime ?s' = fst te \<and>
      SCAN_DEBOUNCE \<le> fst te - lastScanTime s"
    with ih show ?thesis by simp
  next
    assume "length (inFlight ?s') \<le> length (inFlight s) \<and> lastScanTime ?s' = lastScanTime s"
    with ih show ?thesis by simp
  qed
qed

text \<open>
  C4, as the code has it. While the processing flag is set every read is ignored.
  While it is clear, a read fewer than \<open>SCAN_DEBOUNCE\<close> ms after \<open>lastScanTime\<close>
  is rejected and changes nothing, the timestamp included; any other read is accepted at
  once: the timestamp becomes its time, the flag is set and the lookup is started. Along
  every run without a focus or blur event (each resets the timestamp), the accepted reads
  are at least \<open>SCAN_DEBOUNCE\<close> ms apart, the first at least that long after the
  timestamp the run started with.
\<close>

theorem debounce_gate:
  assumes "list_all (\<lambda>te. \<not> isRefocus te) es"
  shows "(isProcessing s \<longrightarrow> handleBarcodeScanned_B now v s = s) \<and>
         (\<not> isProcessing s \<and> now - lastScanTime s < SCAN_DEBOUNCE \<longrightarrow>
            handleBarcodeScanned_B now v s = s) \<and>
         (\<not> isProcessing s \<and> SCAN_DEBOUNCE \<le> now - lastScanTime s \<longrightarrow>
            handleBarcodeScanned_B now v s =
              s\<lparr> isProcessing := True, lastScanTime := now, inFlight := inFlight s @ [v] \<rparr>) \<and>
         spaced SCAN_DEBOUNCE (lastScanTime x # dispatchTimes_B os fmt d es x)"
  using dispatchTimes_B_spaced [OF assms]
  by (simp add: handle_B_processing handle_B_debounce handle_B_accept)

theorem debounce_gate_witness:
  "handleBarcodeScanned_B 2000 ''A'' initScreen =
     initScreen\<lparr> isProcessing := True, lastScanTime := 2000, inFlight := [''A''] \<rparr> \<and>
   dispatchTimes_B OtherOS None sampleWindow
     [(2000, CodesScanned [centered ''A'']), (2500, CodesScanned [centered ''B'']),
      (2600, LookupSettled ''A'' None), (2700, AlertOk),
      (3000, CodesScanned [centered ''C'']), (3600, CodesScanned [centered ''C''])] initScreen
     = [2000, 3600] \<and>
   spaced SCAN_DEBOUNCE (0 # [2000, 3600])"
proof -
  have h: "list_all (\<lambda>te. \<not> isRefocus te)
     [(2000, CodesScanned [centered ''A'']), (2500, CodesScanned [centered ''B'']),
      (2600, LookupSettled ''A'' None), (2700, AlertOk),
      (3000, CodesScanned [centered ''C'']), (3600, CodesScanned [centered ''C''])]"
    by (simp add: isRefocus_def)
  have d: "dispatchTimes_B OtherOS None sampleWindow
     [(2000, CodesScanned [centered ''A'']), (2500, CodesScanned [centered ''B'']),
      (2600, LookupSettled ''A'' None), (2700, AlertOk),
      (3000, CodesScanned [centered ''C'']), (3600, CodesScanned [centered ''C''])] initScreen
     = [2000, 3600]"
    by (simp add: step_B_centered step_B_events handleBarcodeScanned_B_def
        processBarcodeRequest_B_def lookupSettled_def alertOk_def initScreen_def SCAN_DEBOUNCE_def)
  have z: "lastScanTime initScreen = 0" "\<not> isProcessing initScreen" "inFlight initScreen = []"
    by (simp_all add: initScreen_def)
  from debounce_gate [OF h, of initScreen 2000 "''A''" initScreen OtherOS None sampleWindow]
  show ?thesis
    unfolding d by (simp add: z SCAN_DEBOUNCE_def)
qed

text \<open>
  A read 2000 ms after the accepted one is ignored while its lookup is pending; and two
  reads 200 ms apart are both accepted when a focus event falls between them.
\<close>

theorem debounce_gate_exceptions:
  "inFlight (handleBarcodeScanned_B 12000 ''B'' (handleBarcodeScanned_B 10000 ''A'' initScreen))
     = [''A''] \<and>
   SCAN_DEBOUNCE \<le> 12000 - lastScanTime (handleBarcodeScanned_B 10000 ''A'' initScreen) \<and>
   dispatchTimes_B OtherOS None sampleWindow
     [(2000, CodesScanned [centered ''A'']), (2100, Focus),
      (2200, CodesScanned [centered ''B''])] initScreen = [2000, 2200]"
  by (simp add: step_B_centered step_B_events handleBarcodeScanned_B_def
      processBarcodeRequest_B_def onFocus_B_def initScreen_def SCAN_DEBOUNCE_def)

section \<open>The frame filter\<close>

lemma validCode_iff:
  "validCode d c \<longleftrightarrow>
     (\<exists>v f. code_value c = Some v \<and> v \<noteq> [] \<and> code_frame c = Some f \<and>
        inScanFrame d (center d f))"
  by (auto simp: validCode_def noValue_def split: option.splits)

lemma validCode_B_iff:
  "validCode_B os fmt d c \<longleftrightarrow>
     (\<exists>v f. code_value c = Some v \<and> v \<noteq> [] \<and> code_frame c = Some f \<and>
        inScanFrame d (screenCenter os fmt d f))"
  by (auto simp: validCode_B_def noValue_def split: option.splits)

lemma acceptedValue_find:
  assumes "\<And>c. P c \<Longrightarrow> \<not> noValue c"
  shows "acceptedValue (find P codes) = None \<longleftrightarrow> (\<forall>c \<in> set codes. \<not> P c)"
    and "acceptedValue (find P codes) = Some v \<longleftrightarrow>
         (\<exists>i < length codes. P (codes ! i) \<and> code_value (codes ! i) = Some v \<and>
            (\<forall>j < i. \<not> P (codes ! j)))"
proof -
  have val: "\<exists>w. code_value c = Some w" if "P c" for c
    using assms [OF that] by (cases "code_value c") (auto simp: noValue_def)
  show "acceptedValue (find P codes) = None \<longleftrightarrow> (\<forall>c \<in> set codes. \<not> P c)"
  proof (cases "find P codes")
    case None
    then have "\<forall>c \<in> set codes. \<not> P c"
      by (simp add: find_None_iff)
    with None show ?thesis
      by (simp add: acceptedValue_def)
  next
    case (Some c)
    then have pc: "P c" "c \<in> set codes"
      by (auto simp: find_Some_iff)
    from val [OF pc(1)] obtain w where "code_value c = Some w"
      by blast
    with Some assms [OF pc(1)] pc show ?thesis
      by (auto simp: acceptedValue_def)
  qed
  show "acceptedValue (find P codes) = Some v \<longleftrightarrow>
         (\<exists>i < length codes. P (codes ! i) \<and> code_value (codes ! i) = Some v \<and>
            (\<forall>j < i. \<not> P (codes ! j)))"
  proof
    assume a: "acceptedValue (find P codes) = Some v"
    then obtain c where c: "find P codes = Some c"
      by (cases "find P codes") (auto simp: acceptedValue_def)
    then obtain i where i: "i < length codes" "P (codes ! i)" "c = codes ! i"
      "\<forall>j < i. \<not> P (codes ! j)"
      by (auto simp: find_Some_iff)
    from a c assms [OF i(2)] i(3) have "code_value (codes ! i) = Some v"
      by (simp add: acceptedValue_def)
    with i show "\<exists>i < length codes. P (codes ! i) \<and> code_value (codes ! i) = Some v \<and>
            (\<forall>j < i. \<not> P (codes ! j))"
      by blast
  next
    assume "\<exists>i < length codes. P (codes ! i) \<and> code_value (codes ! i) = Some v \<and>
            (\<forall>j < i. \<not> P (codes ! j))"
    then obtain i where i: "i < length codes" "P (codes ! i)" "code_value (codes ! i) = Some v"
      "\<forall>j < i. \<not> P (codes ! j)"
      by blast
    then have "find P codes = Some (codes ! i)"
      by (auto simp: find_Some_iff)
    with assms [OF i(2)] i(3) show "acceptedValue (find P codes) = Some v"
      by (simp add: acceptedValue_def)
  qed
qed

text \<open>
  C3, as the code has it. For every list of detected codes, every window and bounding
  boxes and every number arithmetic, the frame filter yields at most one value. A candidate
  passes the test exactly when it has a non-empty value and a bounding box and the tested
  point, as the engine computes and compares it, lies inside the scan-frame rectangle;
  the filter yields nothing when no candidate passes, and otherwise the value of the
  first candidate in list order that passes. The tested point is the center
  \<open>(x + width / 2, y + height / 2)\<close> of the bounding box in variant A, and in variant
  B off iOS or without a camera format; variant B on iOS with a camera format tests the
  center mapped to the screen,
  \<open>((y + height / 2) / camShort * SCREEN_WIDTH, (x + width / 2) / camLong * SCREEN_HEIGHT)\<close>.
\<close>

theorem frame_filter_first_inside:
  "(validCode d c \<longleftrightarrow>
     (\<exists>v f. code_value c = Some v \<and> v \<noteq> [] \<and> code_frame c = Some f \<and>
        inScanFrame d (center d f))) \<and>
   (frameFilter d codes = None \<longleftrightarrow> (\<forall>c \<in> set codes. \<not> validCode d c)) \<and>
   (frameFilter d codes = Some v \<longleftrightarrow>
     (\<exists>i < length codes. validCode d (codes ! i) \<and> code_value (codes ! i) = Some v \<and>
        (\<forall>j < i. \<not> validCode d (codes ! j)))) \<and>
   (validCode_B os fmt d c \<longleftrightarrow>
     (\<exists>v f. code_value c = Some v \<and> v \<noteq> [] \<and> code_frame c = Some f \<and>
        inScanFrame d (screenCenter os fmt d f))) \<and>
   (frameFilter_B os fmt d codes = None \<longleftrightarrow> (\<forall>c \<in> set codes. \<not> validCode_B os fmt d c)) \<and>
   (frameFilter_B os fmt d codes = Some v \<longleftrightarrow>
     (\<exists>i < length codes. validCode_B os fmt d (codes ! i) \<and> code_value (codes ! i) = Some v \<and>
        (\<forall>j < i. \<not> validCode_B os fmt d (codes ! j)))) \<and>
   (inScanFrame d (px, py) \<longleftrightarrow>
     num_ge (numbers d) px (SCAN_FRAME_LEFT d) \<and> num_le (numbers d) px (SCAN_FRAME_RIGHT d) \<and>
     num_ge (numbers d) py (SCAN_FRAME_TOP d) \<and> num_le (numbers d) py (SCAN_FRAME_BOTTOM d)) \<and>
   center d f =
     (num_add (numbers d) (frame_x f) (num_div (numbers d) (frame_width f) (num_lit (numbers d) 2)),
      num_add (numbers d) (frame_y f) (num_div (numbers d) (frame_height f) (num_lit (numbers d) 2))) \<and>
   screenCenter OtherOS fmt d f = center d f \<and>
   screenCenter os None d f = center d f \<and>
   screenCenter Ios (Some cam) d f =
     (num_mul (numbers d)
        (num_div (numbers d) (snd (center d f))
           (num_min (numbers d) (videoWidth cam) (videoHeight cam)))
        (SCREEN_WIDTH d),
      num_mul (numbers d)
        (num_div (numbers d) (fst (center d f))
           (num_max (numbers d) (videoWidth cam) (videoHeight cam)))
        (SCREEN_HEIGHT d))"
proof -
  have a: "validCode d c \<Longrightarrow> \<not> noValue c" for c
    by (auto simp: validCode_def)
  have b: "validCode_B os fmt d c \<Longrightarrow> \<not> noValue c" for c
    by (auto simp: validCode_B_def)
  have c: "screenCenter OtherOS fmt d f = center d f"
    "screenCenter os None d f = center d f"
    by (simp_all add: screenCenter_def split: option.splits)
  have e: "screenCenter Ios (Some cam) d f =
     (num_mul (numbers d)
        (num_div (numbers d) (snd (center d f))
           (num_min (numbers d) (videoWidth cam) (videoHeight cam)))
        (SCREEN_WIDTH d),
      num_mul (numbers d)
        (num_div (numbers d) (fst (center d f))
           (num_max (numbers d) (videoWidth cam) (videoHeight cam)))
        (SCREEN_HEIGHT d))"
    by (simp add: screenCenter_def center_def Let_def)
  have g: "inScanFrame d (px, py) \<longleftrightarrow>
     num_ge (numbers d) px (SCAN_FRAME_LEFT d) \<and> num_le (numbers d) px (SCAN_FRAME_RIGHT d) \<and>
     num_ge (numbers d) py (SCAN_FRAME_TOP d) \<and> num_le (numbers d) py (SCAN_FRAME_BOTTOM d)"
    by (simp add: inScanFrame_def)
  have h: "center d f =
     (num_add (numbers d) (frame_x f) (num_div (numbers d) (frame_width f) (num_lit (numbers d) 2)),
      num_add (numbers d) (frame_y f) (num_div (numbers d) (frame_height f) (num_lit (numbers d) 2)))"
    by (simp add: center_def)
  show ?thesis
    unfolding frameFilter_def frameFilter_B_def
    using acceptedValue_find(1) [of "validCode d" codes, OF a]
      acceptedValue_find(2) [of "validCode d" codes v, OF a]
      acceptedValue_find(1) [of "validCode_B os fmt d" codes, OF b]
      acceptedValue_find(2) [of "validCode_B os fmt d" codes v, OF b]
      validCode_iff [of d c] validCode_B_iff [of os fmt d c] c e g h
    by blast
qed

lemma validCode_samples:
  "\<not> validCode sampleWindow (unplaced v)" "\<not> validCode sampleWindow (cornered v)"
proof -
  have "\<not> inScanFrame sampleWindow
     (center sampleWindow \<lparr> frame_x = Fin 0, frame_y = Fin 0, frame_width = Fin 20,
                             frame_height = Fin 20 \<rparr>)"
    by (simp add: sample_eval sample_arith del: d_add.simps d_mul.simps d_div.simps)
  then show "\<not> validCode sampleWindow (cornered v)"
    by (simp add: validCode_def cornered_def)
  show "\<not> validCode sampleWindow (unplaced v)"
    by (simp add: validCode_def unplaced_def)
qed

theorem frame_filter_first_inside_witness:
  "frameFilter sampleWindow [unplaced ''X'', cornered ''Y'', centered ''A'', centered ''B'']
     = Some ''A''"
proof -
  let ?codes = "[unplaced ''X'', cornered ''Y'', centered ''A'', centered ''B'']"
  have "(2::nat) < length ?codes \<and> validCode sampleWindow (?codes ! 2) \<and>
      code_value (?codes ! 2) = Some ''A'' \<and> (\<forall>j < 2. \<not> validCode sampleWindow (?codes ! j))"
    by (simp add: validCode_centered validCode_samples less_Suc_eq numeral_2_eq_2)
  then have "\<exists>i < length ?codes. validCode sampleWindow (?codes ! i) \<and>
      code_value (?codes ! i) = Some ''A'' \<and> (\<forall>j < i. \<not> validCode sampleWindow (?codes ! j))"
    by blast
  with frame_filter_first_inside [of sampleWindow "centered ''A''" ?codes "''A''"]
  show ?thesis
    by blast
qed

text \<open>
  On iOS with a 1920 by 1080 format, variant B accepts a code whose bounding-box center
  \<open>(960, 540)\<close> lies outside the scan frame, and rejects the only candidate of a frame
  although its bounding-box center \<open>(200, 400)\<close> lies inside.
\<close>

theorem ios_center_is_transformed:
  "frameFilter_B Ios (Some fullHD) sampleWindow [sensorCentered ''A''] = Some ''A'' \<and>
   code_frame (sensorCentered ''A'')
     = Some \<lparr> frame_x = Fin 860, frame_y = Fin 440, frame_width = Fin 200,
              frame_height = Fin 200 \<rparr> \<and>
   center sampleWindow
       \<lparr> frame_x = Fin 860, frame_y = Fin 440, frame_width = Fin 200, frame_height = Fin 200 \<rparr>
     = (Fin 960, Fin 540) \<and>
   \<not> inScanFrame sampleWindow (Fin 960, Fin 540) \<and>
   frameFilter_B Ios (Some fullHD) sampleWindow [centered ''A''] = None \<and>
   code_frame (centered ''A'')
     = Some \<lparr> frame_x = Fin 150, frame_y = Fin 350, frame_width = Fin 100,
              frame_height = Fin 100 \<rparr> \<and>
   center sampleWindow
       \<lparr> frame_x = Fin 150, frame_y = Fin 350, frame_width = Fin 100, frame_height = Fin 100 \<rparr>
     = (Fin 200, Fin 400) \<and>
   inScanFrame sampleWindow (Fin 200, Fin 400)"
  by (simp add: frameFilter_B_def acceptedValue_def validCode_B_def noValue_def
      sensorCentered_def centered_def sample_eval sample_arith
      del: d_add.simps d_mul.simps d_div.simps)

text \<open>
  The rounding of the arithmetic decides at the edge. In the 360 by 640 window
  \<open>360 * 0.7\<close> is rounded below 252 and the left bound comes out above 54, so a code
  centered at \<open>x = 54\<close> is rejected; on iOS in the 414 by 896 window the mapped center
  \<open>162 / 1080 * 414\<close> comes out below the left bound, and the code is rejected.
\<close>

lemma rounding_at_the_edge:
  "FRAME_SIZE smallWindow = Fin (8866461766385663 / 35184372088832) \<and>
   SCAN_FRAME_LEFT smallWindow = Fin (3799912185593857 / 70368744177664) \<and>
   frameFilter smallWindow [edgeCode ''A''] = None \<and>
   SCAN_FRAME_LEFT tallWindow = Fin (546237376679117 / 8796093022208) \<and>
   fst (screenCenter Ios (Some fullHD) tallWindow
         \<lparr> frame_x = Fin 950, frame_y = Fin 152, frame_width = Fin 20, frame_height = Fin 20 \<rparr>)
     = Fin (2184949506716467 / 35184372088832) \<and>
   frameFilter_B Ios (Some fullHD) tallWindow [sensorEdgeCode ''A''] = None"
  by (simp add: frameFilter_def frameFilter_B_def acceptedValue_def validCode_def validCode_B_def
      noValue_def edgeCode_def sensorEdgeCode_def sample_eval sample_arith
      del: d_add.simps d_mul.simps d_div.simps)

section \<open>The lookup's response\<close>
















section \<open>A lookup that times out\<close>

text \<open>
  C6. At the failing input, a lookup whose \<open>fetch\<close> is aborted by the 30000 ms timer:
  \<open>findProductByBarcode\<close> answers with its timeout text, but \<open>processBarcodeRequest\<close>
  reads only \<open>success\<close> and \<open>data\<close>: the screen ends in the state an answer without a
  product leaves it in, showing the not-found alert, and the processing flag stays set
  until the alert's button is pressed.
\<close>

theorem timeout_shown_as_not_found:
  "findProductByBarcode E Aborted =
     \<lparr> success = False, data = None, variations = None,
       error = Some ''Istek zaman asimina ugradi (10 saniye)'' \<rparr> \<and>
   lookupSettled barcode (Some (findProductByBarcode E Aborted)) (processBarcodeRequest barcode s)
     = lookupSettled barcode
         (Some (findProductByBarcode E (Body True 200 (Some (JObj [(''success'', JBool False)])))))
         (processBarcodeRequest barcode s) \<and>
   alerts (lookupSettled barcode (Some (findProductByBarcode E Aborted))
             (processBarcodeRequest barcode s)) = alerts s @ [notFoundAlert barcode] \<and>
   isProcessing (lookupSettled barcode (Some (findProductByBarcode E Aborted))
                   (processBarcodeRequest barcode s)) = True \<and>
   isProcessing (alertOk (lookupSettled barcode (Some (findProductByBarcode E Aborted))
                            (processBarcodeRequest barcode initScreenA))) = False"
proof -
  have a: "findProductByBarcode E Aborted =
     \<lparr> success = False, data = None, variations = None,
       error = Some ''Istek zaman asimina ugradi (10 saniye)'' \<rparr>"
    by (simp add: findProductByBarcode_def lookupTry_def Aborted_def lookupCatch_def)
  have b: "success (findProductByBarcode E (Body True 200 (Some (JObj [(''success'', JBool False)]))))
      = False"
    by (simp add: findProductByBarcode_def lookupTry_def selectProducts_def getProp_def
        lookupCatch_def)
  show ?thesis
    unfolding a
    by (simp add: b lookupSettled_def processBarcodeRequest_def clearBarcodeBuffer_def
        alertOk_def initScreenA_def Let_def)
qed

end
